theory Spec2Isabelle
  imports Complex_Main "HOL-Library.Multiset"
begin

section \<open>Numbers\<close>

text \<open>
  A JavaScript number is an IEEE 754 double, and an arithmetic operation returns the
  double nearest to its exact result, a tie going to the even significand.  The
  coordinates, sizes and settings of the program are modelled as reals; where the
  outcome of a comparison is the subject of a statement below, its operands are
  rounded as the program rounds them.

  \<open>exponent64 a\<close> is the binary exponent of the double format for a magnitude \<open>a\<close>:
  the \<open>e\<close> with \<open>2 ^ e \<le> a < 2 ^ (e + 1)\<close>, at least \<open>-1022\<close> (below \<open>2 ^ -1022\<close> the
  doubles are equally spaced) and at most \<open>1023\<close>.  \<open>fl64 x\<close> is the multiple of
  \<open>2 ^ (e - 52)\<close> nearest to \<open>x\<close>.
\<close>

definition roundHalfEven :: "real \<Rightarrow> int" where
  "roundHalfEven y =
     (let f = \<lfloor>y\<rfloor>; d = y - of_int f
      in if d < 1 / 2 then f else if d > 1 / 2 then f + 1 else if even f then f else f + 1)"

fun expUp :: "nat \<Rightarrow> real \<Rightarrow> int" where
  "expUp 0 a = 0"
| "expUp (Suc n) a = (if a < 2 then 0 else expUp n (a / 2) + 1)"

fun expDown :: "nat \<Rightarrow> real \<Rightarrow> int" where
  "expDown 0 a = 0"
| "expDown (Suc n) a = (if a \<ge> 1 then 0 else expDown n (a * 2) - 1)"

definition exponent64 :: "real \<Rightarrow> int" where
  "exponent64 a = (if a \<ge> 1 then expUp 1023 a else expDown 1022 a)"

definition fl64 :: "real \<Rightarrow> real" where
  "fl64 x =
     (if x = 0 then 0
      else (let e = exponent64 \<bar>x\<bar>
            in if e \<le> 52
               then of_int (roundHalfEven (x * 2 ^ nat (52 - e))) / 2 ^ nat (52 - e)
               else of_int (roundHalfEven (x / 2 ^ nat (e - 52))) * 2 ^ nat (e - 52)))"

text \<open>
  The result of an operation on finite operands: an exact result of magnitude
  \<open>2 ^ 1024 - 2 ^ 970\<close> or more (the largest double plus half a spacing) rounds to an
  infinity.
\<close>

datatype jsnum = Fin real | PosInf | NegInf

definition round64 :: "real \<Rightarrow> jsnum" where
  "round64 x =
     (if x \<ge> 2 ^ 1024 - 2 ^ 970 then PosInf
      else if x \<le> - (2 ^ 1024 - 2 ^ 970) then NegInf
      else Fin (fl64 x))"

text \<open>\<open>Math.abs\<close> and \<open><\<close> on these results.\<close>

fun jsAbs :: "jsnum \<Rightarrow> jsnum" where
  "jsAbs (Fin x) = Fin \<bar>x\<bar>"
| "jsAbs PosInf = PosInf"
| "jsAbs NegInf = PosInf"

fun jsLess :: "jsnum \<Rightarrow> jsnum \<Rightarrow> bool" where
  "jsLess (Fin a) (Fin b) = (a < b)"
| "jsLess (Fin a) PosInf = True"
| "jsLess NegInf (Fin b) = True"
| "jsLess NegInf PosInf = True"
| "jsLess a b = False"

section \<open>Data model\<close>

text \<open>
  The layout engine computes on JavaScript numbers; they are modelled as \<^typ>\<open>real\<close>
  (no rounding, no NaN, no infinities: where the source starts a minimum from
  \<open>Infinity\<close> or a line top from \<open>-Infinity\<close> the model uses an option or a case on
  the empty list).  A span element is an opaque identity of type \<open>'s\<close>; the snapshot
  \<open>Map<HTMLSpanElement, SpanInfo>\<close> is the list of its keys in insertion order together
  with the lookup \<open>spanInfos :: 's \<Rightarrow> SpanInfo\<close>, which stands for
  \<open>spanInfos.get(s)!\<close> on a key.  Text is a list of UTF-16 code units.
\<close>

record RectLike =
  r_left :: real
  r_top :: real
  r_right :: real
  r_bottom :: real
  r_width :: real
  r_height :: real

text \<open>
  \<open>NormalizedStyle\<close> of Snapshot.ts.  \<open>stylesMatchStyle\<close> also reads the property
  \<open>isMathElement\<close> of a style and the initial grouping reads \<open>direction\<close>; the
  interface does not declare them, so both are optional (\<open>None\<close> is \<open>undefined\<close>).
\<close>

record NormalizedStyle =
  fontFamily :: string
  fontSize :: real
  fontWeight :: real
  fontStyle :: string
  colorRGB :: "real \<times> real \<times> real"
  styleIsMathElement :: "bool option"
  direction :: "string option"

record SpanInfo =
  rect :: RectLike
  style :: NormalizedStyle
  isMathElement :: bool
  spanText :: "nat list"

record VerticalStrip =
  vs_left :: real
  vs_right :: real
  vs_top :: real
  vs_bottom :: real
  vs_confidence :: real

record HorizontalBand =
  hb_y :: real
  hb_height :: real
  hb_confidence :: real

record LayoutSettings =
  lineHeightMultiplier :: real
  minStripConfidence :: real
  minStripWidthPx :: real
  maxIterMerges :: real
  minBandConfidence :: real
  bandTopBottomThresholdMultiplier :: real
  inferredBandConfidence :: real
  bandMergeGapPx :: real
  bandMergeGapLineHeightMultiplier :: real
  maxGapFractionOfPageHeight :: real
  minGapsForTrim :: real
  trimPercent :: real
  lineHeightFromAvgMultiplier :: real
  floorMultiplier :: real
  minOverlapFracForBand :: real
  minRegionWidth :: real
  pmForceLinearMerge :: bool
  pmMinStripConfidenceSplit :: real
  pmMinStripWidthPx :: real
  pmMinStripOverlapFrac :: real
  pmInitialMergeBaselineTolNonMath :: real
  pmInitialMergeBaselineTolMath :: real
  pmInitialMergeKernTolNonMath :: real
  pmInitialMergeKernTolMath :: real
  pmHyphenContinuationTol :: real
  pmInitialMergeAlignTolNonMath :: real
  pmInitialMergeAlignTolMath :: real
  pmInitialMergeVerticalGapMultiplier :: real
  pmInitialMergeVerticalGapMaxMultiplier :: real
  pmStackedMergeAlignTol :: real
  pmStackedMergeOverlapFrac :: real
  pmStackedMergeVerticalGapMultiplier :: real
  pmStackedMergeVerticalGapMaxMultiplier :: real
  pmGeneralMergeAlignTol :: real
  pmGeneralMergeOverlapFrac :: real
  pmGeneralMergeVerticalGapMultiplier :: real
  pmGeneralMergeVerticalGapMaxMultiplier :: real
  pmNestedMergeOverlapFrac :: real
  pmStitchBaselineTolNonMath :: real
  pmStitchBaselineTolMath :: real
  pmStitchKernTolNonMath :: real
  pmStitchKernTolMath :: real
  pmInlineSpanMaxWeightDiff :: real
  pmInlineSpanAllowMixedStyle :: bool
  pmSameColumnCoverageRatio :: real
  pmMathMergeBaselineTol :: real
  pmMathMergeHorizTol :: real
  pmMathMergeCenterTol :: real
  pmSplitLineHeightTol :: real
  pmSplitBoundaryDedupTol :: real
  pmSplitInterWordGapTol :: real
  pmSplitColumnGapTol :: real

text \<open>\<open>defaultLayoutSettings\<close> of layout-modal.ts (the fields the engine reads).\<close>

definition defaultLayoutSettings :: LayoutSettings where
  "defaultLayoutSettings = \<lparr>
    lineHeightMultiplier = 1.6,
    minStripConfidence = 0.7,
    minStripWidthPx = 4,
    maxIterMerges = 10,
    minBandConfidence = 0.6,
    bandTopBottomThresholdMultiplier = 0.75,
    inferredBandConfidence = 0.8,
    bandMergeGapPx = 2,
    bandMergeGapLineHeightMultiplier = 0.2,
    maxGapFractionOfPageHeight = 0.5,
    minGapsForTrim = 5,
    trimPercent = 0.15,
    lineHeightFromAvgMultiplier = 1.25,
    floorMultiplier = 0.8,
    minOverlapFracForBand = 0.4,
    minRegionWidth = 1,
    pmForceLinearMerge = False,
    pmMinStripConfidenceSplit = 0.7,
    pmMinStripWidthPx = 6,
    pmMinStripOverlapFrac = 0.6,
    pmInitialMergeBaselineTolNonMath = 0.45,
    pmInitialMergeBaselineTolMath = 0.75,
    pmInitialMergeKernTolNonMath = 0.55,
    pmInitialMergeKernTolMath = 0.9,
    pmHyphenContinuationTol = 1.8,
    pmInitialMergeAlignTolNonMath = 2.0,
    pmInitialMergeAlignTolMath = 2.0,
    pmInitialMergeVerticalGapMultiplier = 1.3,
    pmInitialMergeVerticalGapMaxMultiplier = 2.2,
    pmStackedMergeAlignTol = 2.0,
    pmStackedMergeOverlapFrac = 0.25,
    pmStackedMergeVerticalGapMultiplier = 1.35,
    pmStackedMergeVerticalGapMaxMultiplier = 2.0,
    pmGeneralMergeAlignTol = 2.0,
    pmGeneralMergeOverlapFrac = 0.25,
    pmGeneralMergeVerticalGapMultiplier = 1.35,
    pmGeneralMergeVerticalGapMaxMultiplier = 2.0,
    pmNestedMergeOverlapFrac = 0.7,
    pmStitchBaselineTolNonMath = 0.45,
    pmStitchBaselineTolMath = 0.75,
    pmStitchKernTolNonMath = 0.55,
    pmStitchKernTolMath = 0.9,
    pmInlineSpanMaxWeightDiff = 300,
    pmInlineSpanAllowMixedStyle = True,
    pmSameColumnCoverageRatio = 0.65,
    pmMathMergeBaselineTol = 2.0,
    pmMathMergeHorizTol = 1.5,
    pmMathMergeCenterTol = 2.5,
    pmSplitLineHeightTol = 0.7,
    pmSplitBoundaryDedupTol = 0.3,
    pmSplitInterWordGapTol = 1.2,
    pmSplitColumnGapTol = 2.5 \<rparr>"

section \<open>Array helpers\<close>

text \<open>
  \<open>Array.prototype.sort\<close> with a comparator is a stable sort: \<open>x\<close> stays in front of
  every element it does not compare greater than.
\<close>

fun insortBy :: "('a \<Rightarrow> 'a \<Rightarrow> real) \<Rightarrow> 'a \<Rightarrow> 'a list \<Rightarrow> 'a list" where
  "insortBy cmp x [] = [x]"
| "insortBy cmp x (y # ys) = (if cmp x y \<le> 0 then x # y # ys else y # insortBy cmp x ys)"

definition sortBy :: "('a \<Rightarrow> 'a \<Rightarrow> real) \<Rightarrow> 'a list \<Rightarrow> 'a list" where
  "sortBy cmp xs = foldr (insortBy cmp) xs []"

text \<open>The comparator \<open>a.top - b.top || a.left - b.left\<close>.\<close>

definition cmpTopLeft :: "RectLike \<Rightarrow> RectLike \<Rightarrow> real" where
  "cmpTopLeft a b = (if r_top a - r_top b = 0 then r_left a - r_left b else r_top a - r_top b)"

definition sortSpansTopLeft :: "('s \<Rightarrow> SpanInfo) \<Rightarrow> 's list \<Rightarrow> 's list" where
  "sortSpansTopLeft spanInfos xs =
     sortBy (\<lambda>a b. cmpTopLeft (rect (spanInfos a)) (rect (spanInfos b))) xs"

text \<open>Truthiness of an optional boolean property.\<close>

fun truthy :: "bool option \<Rightarrow> bool" where
  "truthy None = False"
| "truthy (Some b) = b"

section \<open>ParagraphMerger: style matching\<close>

definition hypot3 :: "real \<Rightarrow> real \<Rightarrow> real \<Rightarrow> real" where
  "hypot3 x y z = sqrt (x * x + y * y + z * z)"

definition colorDistance :: "NormalizedStyle \<Rightarrow> NormalizedStyle \<Rightarrow> real" where
  "colorDistance a b =
     (case colorRGB a of (r1, g1, b1) \<Rightarrow>
        (case colorRGB b of (r2, g2, b2) \<Rightarrow> hypot3 (r1 - r2) (g1 - g2) (b1 - b2)))"

text \<open>
  \<open>getNumericFontWeight\<close> on the numeric weight of a \<open>NormalizedStyle\<close> (the string
  branches of the source are unreachable for a snapshot style).
\<close>

definition getNumericFontWeight :: "real \<Rightarrow> real" where
  "getNumericFontWeight w = w"

definition stylesMatchStyle ::
  "LayoutSettings \<Rightarrow> NormalizedStyle \<Rightarrow> NormalizedStyle \<Rightarrow> bool \<Rightarrow> bool" where
  "stylesMatchStyle cfg a b mathAware =
     (if pmForceLinearMerge cfg then True
      else if mathAware \<and> (truthy (styleIsMathElement a) \<or> truthy (styleIsMathElement b)) then
        (if fontFamily a \<noteq> fontFamily b then False
         else if fontStyle a \<noteq> fontStyle b then False
         else if fontWeight a \<noteq> fontWeight b then False
         else if \<bar>fontSize a - fontSize b\<bar> > 1 then False
         else colorDistance a b < 10)
      else if fontFamily a \<noteq> fontFamily b then False
      else if \<bar>fontSize a - fontSize b\<bar> > 1 then False
      else if colorDistance a b \<ge> 10 then False
      else if \<bar>getNumericFontWeight (fontWeight a) - getNumericFontWeight (fontWeight b)\<bar>
                > pmInlineSpanMaxWeightDiff cfg then False
      else if \<not> pmInlineSpanAllowMixedStyle cfg \<and> fontStyle a \<noteq> fontStyle b then False
      else True)"

definition stylesMatch :: "LayoutSettings \<Rightarrow> SpanInfo \<Rightarrow> SpanInfo \<Rightarrow> bool \<Rightarrow> bool" where
  "stylesMatch cfg a b mathAware = stylesMatchStyle cfg (style a) (style b) mathAware"

section \<open>ParagraphMerger: initial grouping\<close>

text \<open>
  \<open>String.prototype.trim\<close> removes white space and line terminators at both ends.
\<close>

definition isJsWhiteSpace :: "nat \<Rightarrow> bool" where
  "isJsWhiteSpace c =
     (c \<in> {9, 10, 11, 12, 13, 32, 160, 5760, 8232, 8233, 8239, 8287, 12288, 65279}
      \<or> (8192 \<le> c \<and> c \<le> 8202))"

definition jsTrim :: "nat list \<Rightarrow> nat list" where
  "jsTrim t = rev (dropWhile isJsWhiteSpace (rev (dropWhile isJsWhiteSpace t)))"

text \<open>The hyphen test (a character class of U+00AD and the hyphen-minus, anchored at the end): the last code unit is a soft hyphen or a hyphen-minus.\<close>

definition endsWithHyphenRe :: "nat list \<Rightarrow> bool" where
  "endsWithHyphenRe t = (case rev t of [] \<Rightarrow> False | c # _ \<Rightarrow> c = 173 \<or> c = 45)"

definition isRtl :: "NormalizedStyle \<Rightarrow> bool" where
  "isRtl s = (direction s = Some ''rtl'')"

text \<open>
  The body of the loop of \<open>mergeIntoParagraphsFromInfos\<close> up to its \<open>if\<close>: whether the
  fragment \<open>cur\<close> (\<open>ci\<close> in the source) extends the paragraph whose last fragment is \<open>prv\<close> (\<open>pi\<close>).
\<close>

text \<open>
  \<open>hyphenContinuation\<close>: the distance of the left edges and the product of font size
  and tolerance are the doubles that the subtraction and the multiplication return.
\<close>

definition hyphenContinuation :: "LayoutSettings \<Rightarrow> SpanInfo \<Rightarrow> SpanInfo \<Rightarrow> bool" where
  "hyphenContinuation cfg prv cur =
     (endsWithHyphenRe (jsTrim (spanText prv))
      \<and> r_top (rect cur) > r_top (rect prv)
      \<and> jsLess (jsAbs (round64 (r_left (rect cur) - r_left (rect prv))))
                (round64 (fontSize (style cur) * pmHyphenContinuationTol cfg)))"

definition initialMergeTest :: "LayoutSettings \<Rightarrow> SpanInfo \<Rightarrow> SpanInfo \<Rightarrow> bool" where
  "initialMergeTest cfg prv cur =
     (let sameStyle = stylesMatch cfg cur prv True;
          maxFontSize = max (fontSize (style cur)) (fontSize (style prv));
          minF = min (fontSize (style cur)) (fontSize (style prv));
          anyMath = (isMathElement cur \<or> isMathElement prv);
          baseTol = minF * (if anyMath then pmInitialMergeBaselineTolMath cfg
                            else pmInitialMergeBaselineTolNonMath cfg);
          sameBaseline = (\<bar>r_bottom (rect cur) - r_bottom (rect prv)\<bar> < baseTol);
          rtl = (isRtl (style cur) \<or> isRtl (style prv));
          dx = r_left (rect cur) - r_right (rect prv);
          kernTol = minF * (if anyMath then pmInitialMergeKernTolMath cfg
                            else pmInitialMergeKernTolNonMath cfg);
          smallInlineKerning =
            (sameBaseline \<and> (if rtl then dx \<le> 0 \<and> dx > - kernTol else dx \<ge> 0 \<and> dx < kernTol));
          leftAlignTol = minF * (if anyMath then pmInitialMergeAlignTolMath cfg
                                 else pmInitialMergeAlignTolNonMath cfg);
          rightAlignTol = leftAlignTol;
          leftAligned = (\<bar>r_left (rect cur) - r_left (rect prv)\<bar> < leftAlignTol);
          rightAligned = (\<bar>r_right (rect cur) - r_right (rect prv)\<bar> < rightAlignTol);
          lineHeightGuess = maxFontSize * lineHeightMultiplier cfg;
          verticalTolerance = min (lineHeightGuess * pmInitialMergeVerticalGapMultiplier cfg)
                                  (maxFontSize * pmInitialMergeVerticalGapMaxMultiplier cfg);
          verticalGap = r_top (rect cur) - r_bottom (rect prv)
      in sameStyle \<and>
         ((verticalGap \<le> verticalTolerance \<and> (leftAligned \<or> rightAligned))
          \<or> smallInlineKerning
          \<or> hyphenContinuation cfg prv cur))"

text \<open>
  The loop over \<open>ordered\<close>, with the loop variables \<open>current\<close> and \<open>paragraphs\<close> as
  arguments; the last equation is the code after the loop.
\<close>

fun groupSpans ::
  "LayoutSettings \<Rightarrow> ('s \<Rightarrow> SpanInfo) \<Rightarrow> 's list \<Rightarrow> 's list list \<Rightarrow> 's list \<Rightarrow> 's list list" where
  "groupSpans cfg spanInfos current paragraphs [] =
     (if current = [] then paragraphs else paragraphs @ [current])"
| "groupSpans cfg spanInfos current paragraphs (cur # rest) =
     (if current = [] then groupSpans cfg spanInfos [cur] paragraphs rest
      else if initialMergeTest cfg (spanInfos (last current)) (spanInfos cur)
           then groupSpans cfg spanInfos (current @ [cur]) paragraphs rest
           else groupSpans cfg spanInfos [cur] (paragraphs @ [current]) rest)"

definition mergeIntoParagraphsFromInfos ::
  "LayoutSettings \<Rightarrow> ('s \<Rightarrow> SpanInfo) \<Rightarrow> 's list \<Rightarrow> 's list list" where
  "mergeIntoParagraphsFromInfos cfg spanInfos keys =
     groupSpans cfg spanInfos [] [] (sortSpansTopLeft spanInfos keys)"

section \<open>ParagraphMerger: geometry helpers\<close>

definition mkRect :: "real \<Rightarrow> real \<Rightarrow> real \<Rightarrow> real \<Rightarrow> RectLike" where
  "mkRect l t r b =
     \<lparr>r_left = l, r_top = t, r_right = r, r_bottom = b, r_width = r - l, r_height = b - t\<rparr>"

text \<open>
  \<open>getParaBbox\<close>: the running minima and maxima start from the first rectangle (the
  source starts from \<open>\<plusminus>Infinity\<close> and returns the zero rectangle when nothing was seen).
\<close>

definition getParaBbox :: "('s \<Rightarrow> SpanInfo) \<Rightarrow> 's list \<Rightarrow> RectLike" where
  "getParaBbox infos spans =
     (case spans of
        [] \<Rightarrow> mkRect 0 0 0 0
      | s # ss \<Rightarrow>
          mkRect
            (fold (\<lambda>x m. if r_left (rect (infos x)) < m then r_left (rect (infos x)) else m) ss
                  (r_left (rect (infos s))))
            (fold (\<lambda>x m. if r_top (rect (infos x)) < m then r_top (rect (infos x)) else m) ss
                  (r_top (rect (infos s))))
            (fold (\<lambda>x m. if r_right (rect (infos x)) > m then r_right (rect (infos x)) else m) ss
                  (r_right (rect (infos s))))
            (fold (\<lambda>x m. if r_bottom (rect (infos x)) > m then r_bottom (rect (infos x)) else m) ss
                  (r_bottom (rect (infos s)))))"

text \<open>
  \<open>filterStrips\<close>.  The orchestrator calls the merger without \<open>viewportWidth\<close>; then
  \<open>width < undefined * 0.003\<close> is a comparison with NaN and is false.
\<close>

definition filterStrips ::
  "LayoutSettings \<Rightarrow> VerticalStrip list \<Rightarrow> real option \<Rightarrow> VerticalStrip list" where
  "filterStrips cfg strips viewportWidth =
     filter (\<lambda>s.
        let width = vs_right s - vs_left s;
            height = vs_bottom s - vs_top s
        in if (case viewportWidth of None \<Rightarrow> False | Some vw \<Rightarrow> width < vw * 0.003) then False
           else if height < max 12 (height * 0.7) then False
           else vs_confidence s \<ge> pmMinStripConfidenceSplit cfg
                \<and> width \<ge> pmMinStripWidthPx cfg \<and> height > 0) strips"

text \<open>
  The test \<open>yOverlap / stripHeight < m\<close> of JavaScript: a division by zero gives
  \<open>-Infinity\<close> (below every \<open>m\<close>) for a negative numerator and \<open>Infinity\<close> or NaN
  (a false comparison) otherwise.
\<close>

definition jsQuotientLess :: "real \<Rightarrow> real \<Rightarrow> real \<Rightarrow> bool" where
  "jsQuotientLess x d m = (if d = 0 then x < 0 else x / d < m)"

text \<open>The loop of \<open>sameColumnByStrips\<close> over the strips, accumulating \<open>totalStripCoverage\<close>.\<close>

fun stripCoverageLoop ::
  "LayoutSettings \<Rightarrow> real \<Rightarrow> real \<Rightarrow> real \<Rightarrow> real \<Rightarrow> real \<Rightarrow> real \<Rightarrow> VerticalStrip list \<Rightarrow> real" where
  "stripCoverageLoop cfg yTop yBot gapLeft gapRight minStripCoverage acc [] = acc"
| "stripCoverageLoop cfg yTop yBot gapLeft gapRight minStripCoverage acc (s # ss) =
     (if vs_confidence s < pmMinStripConfidenceSplit cfg
        then stripCoverageLoop cfg yTop yBot gapLeft gapRight minStripCoverage acc ss
      else if vs_right s - vs_left s < pmMinStripWidthPx cfg
        then stripCoverageLoop cfg yTop yBot gapLeft gapRight minStripCoverage acc ss
      else if jsQuotientLess (min yBot (vs_bottom s) - max yTop (vs_top s))
                (vs_bottom s - vs_top s) (pmMinStripOverlapFrac cfg)
        then stripCoverageLoop cfg yTop yBot gapLeft gapRight minStripCoverage acc ss
      else if max 0 (min (vs_right s) gapRight - max (vs_left s) gapLeft) \<ge> minStripCoverage
        then stripCoverageLoop cfg yTop yBot gapLeft gapRight minStripCoverage
               (acc + max 0 (min (vs_right s) gapRight - max (vs_left s) gapLeft)) ss
      else stripCoverageLoop cfg yTop yBot gapLeft gapRight minStripCoverage acc ss)"

definition sameColumnByStrips ::
  "LayoutSettings \<Rightarrow> RectLike \<Rightarrow> RectLike \<Rightarrow> VerticalStrip list \<Rightarrow> bool" where
  "sameColumnByStrips cfg a b strips =
     (if pmForceLinearMerge cfg then True
      else if strips = [] then
        (let horizontalOverlap = max 0 (min (r_right a) (r_right b) - max (r_left a) (r_left b));
             minWidth = min (r_width a) (r_width b) * 0.3;
             maxReasonableColumnWidth = max (r_width a) (r_width b) * 3;
             horizontalDistance = \<bar>(r_left a + r_right a) / 2 - (r_left b + r_right b) / 2\<bar>
         in horizontalOverlap > minWidth \<and> horizontalDistance < maxReasonableColumnWidth)
      else
        (let yTop = min (r_top a) (r_top b);
             yBot = max (r_bottom a) (r_bottom b);
             totalHeight = yBot - yTop
         in if totalHeight \<le> 0 then True
            else
              (let leftPara = (if r_left a < r_left b then a else b);
                   rightPara = (if r_left a < r_left b then b else a);
                   horizontalOverlap =
                     max 0 (min (r_right a) (r_right b) - max (r_left a) (r_left b));
                   minWidthOverlap = min (r_width a) (r_width b) * 0.3
               in if horizontalOverlap > minWidthOverlap then True
                  else
                    (let gapLeft = r_right leftPara;
                         gapRight = r_left rightPara;
                         gapWidth = gapRight - gapLeft
                     in if gapWidth \<le> 0 then True
                        else
                          (let totalStripCoverage =
                                 stripCoverageLoop cfg yTop yBot gapLeft gapRight
                                   (max 3 (gapWidth * 0.1)) 0 strips;
                               coverageRatio = totalStripCoverage / gapWidth
                           in coverageRatio < pmSameColumnCoverageRatio cfg)))))"

definition hasHorizontalBandBetween ::
  "LayoutSettings \<Rightarrow> RectLike \<Rightarrow> RectLike \<Rightarrow> HorizontalBand list \<Rightarrow> bool" where
  "hasHorizontalBandBetween cfg a b bands =
     (if pmForceLinearMerge cfg then False
      else if bands = [] then False
      else
        (let topY = min (r_bottom a) (r_bottom b);
             bottomY = max (r_top a) (r_top b)
         in list_ex (\<lambda>band. hb_confidence band \<ge> 0.6
                              \<and> hb_y band > topY \<and> hb_y band + hb_height band < bottomY) bands))"

definition rectContains :: "RectLike \<Rightarrow> RectLike \<Rightarrow> real \<Rightarrow> bool" where
  "rectContains a b tol =
     (r_left a - tol \<le> r_left b \<and> r_right a + tol \<ge> r_right b
      \<and> r_top a - tol \<le> r_top b \<and> r_bottom a + tol \<ge> r_bottom b)"

definition rectIntersection :: "RectLike \<Rightarrow> RectLike \<Rightarrow> RectLike option" where
  "rectIntersection a b =
     (let l = max (r_left a) (r_left b);
          t = max (r_top a) (r_top b);
          r = min (r_right a) (r_right b);
          bt = min (r_bottom a) (r_bottom b)
      in if r \<le> l \<or> bt \<le> t then None else Some (mkRect l t r bt))"

definition area :: "RectLike \<Rightarrow> real" where
  "area r = max 0 (r_width r) * max 0 (r_height r)"

text \<open>
  The operator class \<open>opRe\<close> of \<open>isMathMergeCandidate\<close>, as UTF-16 code units: equals,
  plus, hyphen-minus, U+2212, U+00D7, U+00F7, U+221A, U+222B, U+2211, U+2260, U+2264,
  U+2265, U+2248, U+00B1, U+221E.
\<close>

definition opReTest :: "nat list \<Rightarrow> bool" where
  "opReTest t =
     list_ex (\<lambda>c. c \<in> {61, 43, 45, 8722, 215, 247, 8730, 8747, 8721, 8800, 8804, 8805,
                         8776, 177, 8734}) t"

definition isMathMergeCandidate ::
  "LayoutSettings \<Rightarrow> RectLike \<Rightarrow> NormalizedStyle \<Rightarrow> nat list
     \<Rightarrow> RectLike \<Rightarrow> NormalizedStyle \<Rightarrow> nat list \<Rightarrow> VerticalStrip list \<Rightarrow> bool" where
  "isMathMergeCandidate cfg abbox astyle atext bbbox bstyle btext strips =
     (let fs = (if max (fontSize astyle) (fontSize bstyle) = 0 then 12
                      else max (fontSize astyle) (fontSize bstyle));
          verticalProximity = (\<bar>r_top abbox - r_top bbbox\<bar> < fs * pmMathMergeBaselineTol cfg);
          horizontalProximity = (\<bar>r_left abbox - r_left bbbox\<bar> < fs * pmMathMergeHorizTol cfg)
      in if \<not> sameColumnByStrips cfg abbox bbbox strips then False
         else if opReTest atext \<or> opReTest btext then verticalProximity \<and> horizontalProximity
         else verticalProximity
              \<and> \<bar>(r_left abbox + r_right abbox) / 2 - (r_left bbbox + r_right bbbox) / 2\<bar>
                  < fs * pmMathMergeCenterTol cfg)"

section \<open>ParagraphMerger: splitting paragraphs at column gaps\<close>

text \<open>
  \<open>processLineForColumnBoundaries\<close>: the pairs of neighbours of the line sorted by
  \<open>left\<close>; the result is the list of gap centres pushed to \<open>columnBoundaries\<close>.
\<close>

fun lineGapCenters :: "LayoutSettings \<Rightarrow> RectLike list \<Rightarrow> real list" where
  "lineGapCenters cfg (prv # cur # rest) =
     (let gap = r_left cur - r_right prv;
          fs = min (r_height prv) (r_height cur) * 0.8;
          maxInterWordGap = fs * pmSplitInterWordGapTol cfg;
          minColumnGap = fs * pmSplitColumnGapTol cfg
      in (if gap > minColumnGap \<and> gap > maxInterWordGap
          then [(r_right prv + r_left cur) / 2] else [])
         @ lineGapCenters cfg (cur # rest))"
| "lineGapCenters cfg _ = []"

definition processLineForColumnBoundaries ::
  "LayoutSettings \<Rightarrow> RectLike list \<Rightarrow> real list \<Rightarrow> real list" where
  "processLineForColumnBoundaries cfg lineSpans columnBoundaries =
     columnBoundaries @ lineGapCenters cfg (sortBy (\<lambda>a b. r_left a - r_left b) lineSpans)"

text \<open>
  The first loop of \<open>splitParagraphByStrips\<close>: the state is \<open>currentLineTop\<close>
  (\<open>None\<close> for \<open>-Infinity\<close>), the rectangles of \<open>currentLineSpans\<close> and
  \<open>columnBoundaries\<close>; the last equation is the flush after the loop.
\<close>

fun collectBoundaries ::
  "LayoutSettings \<Rightarrow> real \<Rightarrow> real option \<Rightarrow> RectLike list \<Rightarrow> real list \<Rightarrow> RectLike list
     \<Rightarrow> real list" where
  "collectBoundaries cfg lineHeight currentLineTop currentLineSpans columnBoundaries [] =
     (if length currentLineSpans > 1
      then processLineForColumnBoundaries cfg currentLineSpans columnBoundaries
      else columnBoundaries)"
| "collectBoundaries cfg lineHeight currentLineTop currentLineSpans columnBoundaries (r # rs) =
     (if (case currentLineTop of None \<Rightarrow> True
          | Some t \<Rightarrow> \<bar>r_top r - t\<bar> > lineHeight * pmSplitLineHeightTol cfg)
      then collectBoundaries cfg lineHeight (Some (r_top r)) [r]
             (if length currentLineSpans > 1
              then processLineForColumnBoundaries cfg currentLineSpans columnBoundaries
              else columnBoundaries) rs
      else collectBoundaries cfg lineHeight currentLineTop (currentLineSpans @ [r])
             columnBoundaries rs)"

text \<open>\<open>uniqueBoundaries\<close>: the sorted boundaries, dropping one too close to the last kept.\<close>

fun dedupBoundaries :: "real \<Rightarrow> real list \<Rightarrow> real list \<Rightarrow> real list" where
  "dedupBoundaries tol uniq [] = uniq"
| "dedupBoundaries tol uniq (c # cs) =
     (if c - last uniq > tol then dedupBoundaries tol (uniq @ [c]) cs
      else dedupBoundaries tol uniq cs)"

fun regionsOf :: "real list \<Rightarrow> (real \<times> real) list" where
  "regionsOf (a # b # rest) = (a, b) # regionsOf (b # rest)"
| "regionsOf _ = []"

text \<open>
  \<open>findIndex\<close> of the region holding \<open>cx\<close>, and the fallback of the source when there
  is none (\<open>-1\<close>): the first region if \<open>cx\<close> is left of it, the last one otherwise.
\<close>

fun findRegion :: "real \<Rightarrow> (real \<times> real) list \<Rightarrow> nat option" where
  "findRegion cx [] = None"
| "findRegion cx ((l, r) # regions) =
     (if cx \<ge> l \<and> cx < r then Some 0 else map_option Suc (findRegion cx regions))"

definition regionIndex :: "real \<Rightarrow> (real \<times> real) list \<Rightarrow> nat" where
  "regionIndex cx regions =
     (case findRegion cx regions of
        Some i \<Rightarrow> i
      | None \<Rightarrow> (case regions of [] \<Rightarrow> 0
                 | (l, r) # _ \<Rightarrow> if cx < l then 0 else length regions - 1))"

definition spanCenterX :: "('s \<Rightarrow> SpanInfo) \<Rightarrow> 's \<Rightarrow> real" where
  "spanCenterX infos s = (r_left (rect (infos s)) + r_right (rect (infos s))) / 2"

definition splitParagraphByStrips ::
  "LayoutSettings \<Rightarrow> 's list \<Rightarrow> ('s \<Rightarrow> SpanInfo) \<Rightarrow> VerticalStrip list \<Rightarrow> real \<Rightarrow> 's list list" where
  "splitParagraphByStrips cfg paragraph infos strips lineHeight =
     (if paragraph = [] \<or> strips = [] then [paragraph]
      else
        (let paraBbox = getParaBbox infos paragraph;
             sortedSpans = sortSpansTopLeft infos paragraph;
             columnBoundaries =
               collectBoundaries cfg lineHeight None [] [] (map (\<lambda>s. rect (infos s)) sortedSpans)
         in if columnBoundaries = [] then [paragraph]
            else
              (let cbs = sortBy (\<lambda>a b. a - b) columnBoundaries;
                   uniqueBoundaries =
                     (case cbs of [] \<Rightarrow> [] | c # cs \<Rightarrow>
                        dedupBoundaries (lineHeight * pmSplitBoundaryDedupTol cfg) [c] cs);
                   boundaries = [r_left paraBbox] @ uniqueBoundaries @ [r_right paraBbox];
                   regions = regionsOf boundaries;
                   buckets =
                     map (\<lambda>k. filter (\<lambda>s. regionIndex (spanCenterX infos s) regions = k) sortedSpans)
                       [0 ..< length regions];
                   groups = map (sortSpansTopLeft infos) (filter (\<lambda>b. b \<noteq> []) buckets)
               in if length groups > 1 then groups else [paragraph])))"

text \<open>
  Stage 2.  \<open>detectLayout\<close> passes neither \<open>lineHeight\<close> (default \<open>0\<close>) nor
  \<open>viewportWidth\<close>.
\<close>

definition validateParagraphsAgainstStripsFromInfos ::
  "LayoutSettings \<Rightarrow> 's list list \<Rightarrow> ('s \<Rightarrow> SpanInfo) \<Rightarrow> VerticalStrip list \<Rightarrow> real
     \<Rightarrow> real option \<Rightarrow> 's list list" where
  "validateParagraphsAgainstStripsFromInfos cfg paragraphs infos verticalStrips lineHeight
       viewportWidth =
     (if pmForceLinearMerge cfg then paragraphs
      else if verticalStrips = [] then paragraphs
      else
        (let filteredStrips = filterStrips cfg verticalStrips viewportWidth
         in if filteredStrips = [] then paragraphs
            else concat (map (\<lambda>para. splitParagraphByStrips cfg para infos filteredStrips
                                        lineHeight) paragraphs)))"

section \<open>ParagraphMerger: merging stacked paragraphs\<close>

text \<open>
  \<open>spanInfos.get(p[0])!.style\<close>: on an empty paragraph \<open>p[0]\<close> is \<open>undefined\<close> and the
  property access throws a TypeError, which is the value \<open>None\<close> here and below.
\<close>

definition paraStyle :: "('s \<Rightarrow> SpanInfo) \<Rightarrow> 's list \<Rightarrow> NormalizedStyle option" where
  "paraStyle infos p = (case p of [] \<Rightarrow> None | s # _ \<Rightarrow> Some (style (infos s)))"

text \<open>
  The tests of the inner loop of \<open>mergeParagraphsFromInfos\<close> that lead to the merge of
  \<open>next\<close> into \<open>current\<close>.
\<close>

definition generalMergeTest ::
  "LayoutSettings \<Rightarrow> real \<Rightarrow> VerticalStrip list \<Rightarrow> HorizontalBand list
     \<Rightarrow> NormalizedStyle \<Rightarrow> RectLike \<Rightarrow> NormalizedStyle \<Rightarrow> RectLike \<Rightarrow> bool" where
  "generalMergeTest cfg lineHeight filteredStrips horizontalBands currStyle currBbox
       nextStyle nextBbox =
     (if \<not> stylesMatchStyle cfg currStyle nextStyle True then False
      else if \<not> sameColumnByStrips cfg currBbox nextBbox filteredStrips then False
      else if hasHorizontalBandBetween cfg currBbox nextBbox horizontalBands then False
      else
        (let verticalGap = r_top nextBbox - r_bottom currBbox;
             horizontalOverlap =
               (r_left currBbox < r_right nextBbox \<and> r_right currBbox > r_left nextBbox);
             overlapWidth =
               max 0 (min (r_right currBbox) (r_right nextBbox)
                      - max (r_left currBbox) (r_left nextBbox));
             minParaWidth = max 1 (min (r_width currBbox) (r_width nextBbox));
             overlapStrong =
               (horizontalOverlap \<and> overlapWidth > pmGeneralMergeOverlapFrac cfg * minParaWidth);
             leftAlignTol = fontSize currStyle * pmGeneralMergeAlignTol cfg;
             leftAligned = (\<bar>r_left currBbox - r_left nextBbox\<bar> < leftAlignTol);
             rightAligned = (\<bar>r_right currBbox - r_right nextBbox\<bar> < leftAlignTol);
             aligned = (leftAligned \<or> rightAligned);
             mergeThreshold =
               min (lineHeight * pmGeneralMergeVerticalGapMultiplier cfg)
                   (max (fontSize currStyle) (fontSize nextStyle)
                    * pmGeneralMergeVerticalGapMaxMultiplier cfg);
             permissiveAlignment = (pmForceLinearMerge cfg \<or> (aligned \<or> overlapStrong))
         in verticalGap \<le> mergeThreshold \<and> permissiveAlignment))"

text \<open>
  The inner loop over \<open>j > i\<close>.  The worklist holds the paragraphs after \<open>i\<close> that are
  not yet in \<open>used\<close>; a merged paragraph leaves it (the source adds \<open>j\<close> to \<open>used\<close>).
  The result is the final \<open>current\<close> and the paragraphs left for the outer loop.
\<close>

fun mergeScan ::
  "LayoutSettings \<Rightarrow> ('s \<Rightarrow> SpanInfo) \<Rightarrow> real \<Rightarrow> VerticalStrip list \<Rightarrow> HorizontalBand list
     \<Rightarrow> NormalizedStyle \<Rightarrow> 's list \<Rightarrow> RectLike \<Rightarrow> 's list list
     \<Rightarrow> ('s list \<times> 's list list) option" where
  "mergeScan cfg infos lineHeight strips bands currStyle current currBbox [] =
     Some (current, [])"
| "mergeScan cfg infos lineHeight strips bands currStyle current currBbox (nxt # rest) =
     (case paraStyle infos nxt of
        None \<Rightarrow> None
      | Some nextStyle \<Rightarrow>
          if generalMergeTest cfg lineHeight strips bands currStyle currBbox nextStyle
               (getParaBbox infos nxt)
          then mergeScan cfg infos lineHeight strips bands currStyle (current @ nxt)
                 (getParaBbox infos (current @ nxt)) rest
          else (case mergeScan cfg infos lineHeight strips bands currStyle current currBbox rest of
                  None \<Rightarrow> None
                | Some (c, r) \<Rightarrow> Some (c, nxt # r)))"

lemma mergeScan_length:
  "mergeScan cfg infos lineHeight strips bands currStyle current currBbox ps = Some (c, r)
     \<Longrightarrow> length r \<le> length ps"
proof (induction ps arbitrary: current currBbox c r)
  case Nil
  then show ?case by simp
next
  case (Cons nxt rest)
  then show ?case
    by (fastforce split: option.splits if_splits)
qed

text \<open>The outer loop over \<open>i\<close>: the head of the worklist is the next unused paragraph.\<close>

function mergeLoop ::
  "LayoutSettings \<Rightarrow> ('s \<Rightarrow> SpanInfo) \<Rightarrow> real \<Rightarrow> VerticalStrip list \<Rightarrow> HorizontalBand list
     \<Rightarrow> 's list list \<Rightarrow> 's list list option" where
  "mergeLoop cfg infos lineHeight strips bands [] = Some []"
| "mergeLoop cfg infos lineHeight strips bands (p # ps) =
     (case paraStyle infos p of
        None \<Rightarrow> None
      | Some currStyle \<Rightarrow>
          (case mergeScan cfg infos lineHeight strips bands currStyle p (getParaBbox infos p) ps of
             None \<Rightarrow> None
           | Some (current, rest) \<Rightarrow>
               (case mergeLoop cfg infos lineHeight strips bands rest of
                  None \<Rightarrow> None
                | Some merged \<Rightarrow> Some (current # merged))))"
  by pat_completeness auto
termination
  by (relation "measure (\<lambda>(cfg, infos, lineHeight, strips, bands, ps). length ps)")
     (auto dest: mergeScan_length)

definition mergeParagraphsFromInfos ::
  "LayoutSettings \<Rightarrow> 's list list \<Rightarrow> ('s \<Rightarrow> SpanInfo) \<Rightarrow> real \<Rightarrow> VerticalStrip list
     \<Rightarrow> HorizontalBand list \<Rightarrow> real option \<Rightarrow> 's list list option" where
  "mergeParagraphsFromInfos cfg paragraphs infos lineHeight verticalStrips horizontalBands
       viewportWidth =
     mergeLoop cfg infos lineHeight (filterStrips cfg verticalStrips viewportWidth)
       horizontalBands paragraphs"

section \<open>ParagraphMerger: the final stacked pass\<close>

record 's PInfo =
  p_spans :: "'s list"
  p_bbox :: RectLike
  p_style :: NormalizedStyle
  p_isMath :: bool

definition mkPInfo :: "('s \<Rightarrow> SpanInfo) \<Rightarrow> 's list \<Rightarrow> 's PInfo option" where
  "mkPInfo infos spans =
     (case paraStyle infos spans of
        None \<Rightarrow> None
      | Some st \<Rightarrow>
          Some \<lparr>p_spans = spans, p_bbox = getParaBbox infos spans, p_style = st,
                p_isMath = list_ex (\<lambda>s. isMathElement (infos s)) spans\<rparr>)"

definition stackedMergeTest ::
  "LayoutSettings \<Rightarrow> real \<Rightarrow> VerticalStrip list \<Rightarrow> HorizontalBand list
     \<Rightarrow> 's PInfo \<Rightarrow> 's PInfo \<Rightarrow> bool" where
  "stackedMergeTest cfg lineHeight filteredStrips horizontalBands base cand =
     (if \<not> stylesMatchStyle cfg (p_style base) (p_style cand) True then False
      else if \<not> sameColumnByStrips cfg (p_bbox base) (p_bbox cand) filteredStrips then False
      else if hasHorizontalBandBetween cfg (p_bbox base) (p_bbox cand) horizontalBands then False
      else if r_top (p_bbox cand) - r_bottom (p_bbox base) < 0 then False
      else
        (let verticalGap = r_top (p_bbox cand) - r_bottom (p_bbox base);
             horizontalOverlap =
               (r_left (p_bbox base) < r_right (p_bbox cand)
                \<and> r_right (p_bbox base) > r_left (p_bbox cand));
             overlapWidth =
               max 0 (min (r_right (p_bbox base)) (r_right (p_bbox cand))
                      - max (r_left (p_bbox base)) (r_left (p_bbox cand)));
             minParaWidth = max 1 (min (r_width (p_bbox base)) (r_width (p_bbox cand)));
             overlapStrong =
               (horizontalOverlap \<and> overlapWidth > pmStackedMergeOverlapFrac cfg * minParaWidth);
             leftAlignTol =
               max 1 (min (fontSize (p_style base)) (fontSize (p_style cand))
                      * pmStackedMergeAlignTol cfg);
             leftAligned = (\<bar>r_left (p_bbox base) - r_left (p_bbox cand)\<bar> < leftAlignTol);
             rightAligned = (\<bar>r_right (p_bbox base) - r_right (p_bbox cand)\<bar> < leftAlignTol);
             aligned = (leftAligned \<or> rightAligned);
             maxFontSize = max (fontSize (p_style base)) (fontSize (p_style cand));
             mergeThreshold =
               min (lineHeight * pmStackedMergeVerticalGapMultiplier cfg)
                   (maxFontSize * pmStackedMergeVerticalGapMaxMultiplier cfg);
             permissiveAlignment = (pmForceLinearMerge cfg \<or> (aligned \<or> overlapStrong))
         in permissiveAlignment \<and> verticalGap \<le> mergeThreshold))"

definition combinePInfo :: "('s \<Rightarrow> SpanInfo) \<Rightarrow> 's PInfo \<Rightarrow> 's PInfo \<Rightarrow> 's PInfo" where
  "combinePInfo infos base cand =
     (let combinedSpans = sortSpansTopLeft infos (p_spans base @ p_spans cand)
      in \<lparr>p_spans = combinedSpans, p_bbox = getParaBbox infos combinedSpans,
          p_style = p_style base,
          p_isMath = list_ex (\<lambda>s. isMathElement (infos s)) combinedSpans\<rparr>)"

text \<open>
  One run of the inner loop over \<open>j > i\<close>: the final \<open>base\<close>, the candidates left
  unused, and whether a merge happened.
\<close>

fun stackedScan ::
  "LayoutSettings \<Rightarrow> ('s \<Rightarrow> SpanInfo) \<Rightarrow> real \<Rightarrow> VerticalStrip list \<Rightarrow> HorizontalBand list
     \<Rightarrow> 's PInfo \<Rightarrow> 's PInfo list \<Rightarrow> 's PInfo \<times> 's PInfo list \<times> bool" where
  "stackedScan cfg infos lineHeight strips bands base [] = (base, [], False)"
| "stackedScan cfg infos lineHeight strips bands base (cand # rest) =
     (if stackedMergeTest cfg lineHeight strips bands base cand
      then (case stackedScan cfg infos lineHeight strips bands (combinePInfo infos base cand) rest of
              (b, r, ch) \<Rightarrow> (b, r, True))
      else (case stackedScan cfg infos lineHeight strips bands base rest of
              (b, r, ch) \<Rightarrow> (b, cand # r, ch)))"

lemma stackedScan_length:
  "stackedScan cfg infos lineHeight strips bands base ps = (b, r, ch)
     \<Longrightarrow> length r \<le> length ps \<and> (ch \<longrightarrow> length r < length ps)"
proof (induction ps arbitrary: base b r ch)
  case Nil
  then show ?case by simp
next
  case (Cons cand rest)
  then show ?case
    by (fastforce split: prod.splits if_splits)
qed

text \<open>One pass of the body of the \<open>while\<close> loop: \<open>out\<close> and \<open>changed\<close>.\<close>

function stackedPass ::
  "LayoutSettings \<Rightarrow> ('s \<Rightarrow> SpanInfo) \<Rightarrow> real \<Rightarrow> VerticalStrip list \<Rightarrow> HorizontalBand list
     \<Rightarrow> 's PInfo list \<Rightarrow> 's PInfo list \<times> bool" where
  "stackedPass cfg infos lineHeight strips bands [] = ([], False)"
| "stackedPass cfg infos lineHeight strips bands (base # rest) =
     (case stackedScan cfg infos lineHeight strips bands base rest of
        (b, r, ch) \<Rightarrow>
          (case stackedPass cfg infos lineHeight strips bands r of
             (out, ch') \<Rightarrow> (b # out, ch \<or> ch')))"
  by pat_completeness auto
termination
  by (relation "measure (\<lambda>(cfg, infos, lineHeight, strips, bands, ps). length ps)")
     (auto dest!: stackedScan_length [OF sym] simp: less_Suc_eq_le)

definition sortPInfos :: "'s PInfo list \<Rightarrow> 's PInfo list" where
  "sortPInfos ps = sortBy (\<lambda>a b. cmpTopLeft (p_bbox a) (p_bbox b)) ps"

lemma stackedPass_length:
  "stackedPass cfg infos lineHeight strips bands ps = (out, ch)
     \<Longrightarrow> length out \<le> length ps \<and> (ch \<longrightarrow> length out < length ps)"
proof (induction cfg infos lineHeight strips bands ps arbitrary: out ch rule: stackedPass.induct)
  case (1 cfg infos lineHeight strips bands)
  then show ?case by simp
next
  case (2 cfg infos lineHeight strips bands base rest)
  obtain b r c where s: "stackedScan cfg infos lineHeight strips bands base rest = (b, r, c)"
    by (cases "stackedScan cfg infos lineHeight strips bands base rest") auto
  obtain o' c' where p: "stackedPass cfg infos lineHeight strips bands r = (o', c')"
    by (cases "stackedPass cfg infos lineHeight strips bands r") auto
  from "2.IH" [OF s [symmetric] refl p]
  have ih: "length o' \<le> length r \<and> (c' \<longrightarrow> length o' < length r)" .
  from stackedScan_length [OF s]
  have sl: "length r \<le> length rest \<and> (c \<longrightarrow> length r < length rest)" .
  from "2.prems" s p have "out = b # o'" "ch = (c \<or> c')" by auto
  with ih sl show ?case by auto
qed

lemma length_insortBy [simp]: "length (insortBy cmp x xs) = Suc (length xs)"
  by (induction xs) auto

lemma length_sortBy [simp]: "length (sortBy cmp xs) = length xs"
  by (induction xs) (auto simp: sortBy_def)

text \<open>
  The \<open>while (changed)\<close> loop: it has no iteration cap; it ends with the first pass that
  merges nothing.
\<close>

function stackedLoop ::
  "LayoutSettings \<Rightarrow> ('s \<Rightarrow> SpanInfo) \<Rightarrow> real \<Rightarrow> VerticalStrip list \<Rightarrow> HorizontalBand list
     \<Rightarrow> 's PInfo list \<Rightarrow> 's list list" where
  "stackedLoop cfg infos lineHeight strips bands ps =
     (case stackedPass cfg infos lineHeight strips bands ps of
        (out, changed) \<Rightarrow>
          if changed then stackedLoop cfg infos lineHeight strips bands (sortPInfos out)
          else map p_spans out)"
  by pat_completeness auto
termination
  by (relation "measure (\<lambda>(cfg, infos, lineHeight, strips, bands, ps). length ps)")
     (auto dest!: stackedPass_length [OF sym] simp: sortPInfos_def)

declare stackedLoop.simps [simp del]

definition mergeStackedColumnParagraphsFromInfos ::
  "LayoutSettings \<Rightarrow> 's list list \<Rightarrow> ('s \<Rightarrow> SpanInfo) \<Rightarrow> real \<Rightarrow> VerticalStrip list
     \<Rightarrow> HorizontalBand list \<Rightarrow> real option \<Rightarrow> 's list list option" where
  "mergeStackedColumnParagraphsFromInfos cfg paragraphs infos lineHeight verticalStrips
       horizontalBands viewportWidth =
     (if paragraphs = [] then Some paragraphs
      else
        (case those (map (mkPInfo infos) paragraphs) of
           None \<Rightarrow> None
         | Some pinfos \<Rightarrow>
             Some (stackedLoop cfg infos lineHeight
                     (filterStrips cfg verticalStrips viewportWidth) horizontalBands
                     (sortPInfos pinfos))))"

text \<open>
  The value of \<open>infos\<close> at the start of pass number \<open>n\<close> of the \<open>while\<close> loop (from
  \<open>0\<close>), when the passes before it merged.
\<close>

fun stackedIter ::
  "LayoutSettings \<Rightarrow> ('s \<Rightarrow> SpanInfo) \<Rightarrow> real \<Rightarrow> VerticalStrip list \<Rightarrow> HorizontalBand list
     \<Rightarrow> nat \<Rightarrow> 's PInfo list \<Rightarrow> 's PInfo list" where
  "stackedIter cfg infos lineHeight strips bands 0 ps = ps"
| "stackedIter cfg infos lineHeight strips bands (Suc n) ps =
     stackedIter cfg infos lineHeight strips bands n
       (sortPInfos (fst (stackedPass cfg infos lineHeight strips bands ps)))"

section \<open>ParagraphMerger: nested and overlapping paragraphs\<close>

record 's PInfoT =
  t_spans :: "'s list"
  t_bbox :: RectLike
  t_style :: NormalizedStyle
  t_isMath :: bool
  t_text :: "nat list"

definition mkPInfoT :: "('s \<Rightarrow> SpanInfo) \<Rightarrow> 's list \<Rightarrow> 's PInfoT option" where
  "mkPInfoT infos p =
     (case paraStyle infos p of
        None \<Rightarrow> None
      | Some st \<Rightarrow>
          Some \<lparr>t_spans = p, t_bbox = getParaBbox infos p, t_style = st,
                t_isMath = list_ex (\<lambda>s. isMathElement (infos s)) p,
                t_text = concat (map (\<lambda>s. spanText (infos s)) p)\<rparr>)"

text \<open>The tests of the inner loop of \<open>mergeNestedParagraphsOnceFromInfos\<close>.\<close>

definition nestedMergeTest ::
  "LayoutSettings \<Rightarrow> VerticalStrip list \<Rightarrow> HorizontalBand list \<Rightarrow> 's PInfoT \<Rightarrow> 's PInfoT \<Rightarrow> bool" where
  "nestedMergeTest cfg filteredStrips horizontalBands base cand =
     (if \<not> stylesMatchStyle cfg (t_style base) (t_style cand) True then False
      else if \<not> sameColumnByStrips cfg (t_bbox base) (t_bbox cand) filteredStrips then False
      else if hasHorizontalBandBetween cfg (t_bbox base) (t_bbox cand) horizontalBands then False
      else
        (let containsIJ = rectContains (t_bbox base) (t_bbox cand) 1;
             containsJI = rectContains (t_bbox cand) (t_bbox base) 1;
             strongOverlap =
               (if \<not> containsIJ \<and> \<not> containsJI then
                  (case rectIntersection (t_bbox base) (t_bbox cand) of
                     None \<Rightarrow> False
                   | Some isect \<Rightarrow>
                       (let interArea = r_width isect * r_height isect;
                            smaller = (if min (area (t_bbox base)) (area (t_bbox cand)) = 0 then 1
                                       else min (area (t_bbox base)) (area (t_bbox cand)))
                        in interArea / smaller > pmNestedMergeOverlapFrac cfg))
                else False);
             mathMerge =
               ((t_isMath base \<or> t_isMath cand)
                \<and> isMathMergeCandidate cfg (t_bbox base) (t_style base) (t_text base)
                      (t_bbox cand) (t_style cand) (t_text cand) filteredStrips)
         in containsIJ \<or> containsJI \<or> strongOverlap \<or> mathMerge))"

definition combinePInfoT :: "('s \<Rightarrow> SpanInfo) \<Rightarrow> 's PInfoT \<Rightarrow> 's PInfoT \<Rightarrow> 's PInfoT" where
  "combinePInfoT infos base cand =
     (let baseLarger = (area (t_bbox base) \<ge> area (t_bbox cand));
          keep = (if baseLarger then base else cand);
          add = (if baseLarger then cand else base);
          combined = sortSpansTopLeft infos (t_spans keep @ t_spans add)
      in \<lparr>t_spans = combined, t_bbox = getParaBbox infos combined, t_style = t_style keep,
          t_isMath = list_ex (\<lambda>s. isMathElement (infos s)) combined,
          t_text = concat (map (\<lambda>s. spanText (infos s)) combined)\<rparr>)"

text \<open>
  The inner loop runs over all \<open>j\<close> that are neither \<open>i\<close> nor in \<open>used\<close>.  When the
  outer loop is at \<open>i\<close>, every index below \<open>i\<close> is in \<open>used\<close> (each visited index is
  added, merged or not), so the candidates are the unused paragraphs after \<open>i\<close>: the
  worklist.  The loop stops at the first candidate that merges (\<open>break\<close>).
\<close>

fun findNested ::
  "LayoutSettings \<Rightarrow> VerticalStrip list \<Rightarrow> HorizontalBand list \<Rightarrow> 's PInfoT \<Rightarrow> 's PInfoT list
     \<Rightarrow> ('s PInfoT \<times> 's PInfoT list) option" where
  "findNested cfg strips bands base [] = None"
| "findNested cfg strips bands base (cand # rest) =
     (if nestedMergeTest cfg strips bands base cand then Some (cand, rest)
      else (case findNested cfg strips bands base rest of
              None \<Rightarrow> None
            | Some (c, r) \<Rightarrow> Some (c, cand # r)))"

lemma findNested_length:
  "findNested cfg strips bands base ps = Some (c, r) \<Longrightarrow> length r < length ps"
proof (induction ps arbitrary: c r)
  case Nil
  then show ?case by simp
next
  case (Cons cand rest)
  then show ?case
    by (fastforce split: option.splits if_splits)
qed

function nestedPass ::
  "LayoutSettings \<Rightarrow> ('s \<Rightarrow> SpanInfo) \<Rightarrow> VerticalStrip list \<Rightarrow> HorizontalBand list
     \<Rightarrow> 's PInfoT list \<Rightarrow> 's list list \<times> bool" where
  "nestedPass cfg infos strips bands [] = ([], False)"
| "nestedPass cfg infos strips bands (base # rest) =
     (case findNested cfg strips bands base rest of
        None \<Rightarrow>
          (case nestedPass cfg infos strips bands rest of
             (out, changed) \<Rightarrow> (t_spans base # out, changed))
      | Some (cand, rest') \<Rightarrow>
          (case nestedPass cfg infos strips bands rest' of
             (out, changed) \<Rightarrow> (t_spans (combinePInfoT infos base cand) # out, True)))"
  by pat_completeness auto
termination
  by (relation "measure (\<lambda>(cfg, infos, strips, bands, ps). length ps)")
     (auto dest!: findNested_length simp: less_Suc_eq_le)

definition mergeNestedParagraphsOnceFromInfos ::
  "LayoutSettings \<Rightarrow> 's list list \<Rightarrow> ('s \<Rightarrow> SpanInfo) \<Rightarrow> VerticalStrip list
     \<Rightarrow> HorizontalBand list \<Rightarrow> real option \<Rightarrow> ('s list list \<times> bool) option" where
  "mergeNestedParagraphsOnceFromInfos cfg paragraphs infos verticalStrips horizontalBands
       viewportWidth =
     (if paragraphs = [] then Some (paragraphs, False)
      else
        (case those (map (mkPInfoT infos) paragraphs) of
           None \<Rightarrow> None
         | Some pinfos \<Rightarrow>
             Some (nestedPass cfg infos (filterStrips cfg verticalStrips viewportWidth)
                     horizontalBands pinfos)))"

section \<open>ParagraphMerger: inline stitching\<close>

definition stitchTest :: "LayoutSettings \<Rightarrow> SpanInfo \<Rightarrow> SpanInfo \<Rightarrow> bool" where
  "stitchTest cfg prevI curI =
     (let sameStyle = stylesMatch cfg prevI curI True;
          minF = min (fontSize (style prevI)) (fontSize (style curI));
          anyMath = (isMathElement prevI \<or> isMathElement curI);
          baseTol = minF * (if anyMath then pmStitchBaselineTolMath cfg
                            else pmStitchBaselineTolNonMath cfg);
          baselineClose = (\<bar>r_bottom (rect prevI) - r_bottom (rect curI)\<bar> < baseTol);
          dx = r_left (rect curI) - r_right (rect prevI);
          kernTol = minF * (if anyMath then pmStitchKernTolMath cfg
                            else pmStitchKernTolNonMath cfg)
      in sameStyle \<and> baselineClose \<and> dx \<ge> 0 \<and> dx < kernTol)"

text \<open>
  The loop over \<open>ordered\<close> from index \<open>1\<close>: \<open>prv\<close> is \<open>ordered[i - 1]\<close>; the state is
  \<open>stitched\<close> and \<open>group\<close>; the last equation is the flush after the loop.
\<close>

fun stitchLoop ::
  "LayoutSettings \<Rightarrow> ('s \<Rightarrow> SpanInfo) \<Rightarrow> 's list \<Rightarrow> 's list \<Rightarrow> 's \<Rightarrow> 's list \<Rightarrow> 's list" where
  "stitchLoop cfg infos stitched grp prv [] = stitched @ grp"
| "stitchLoop cfg infos stitched grp prv (cur # rest) =
     (if stitchTest cfg (infos prv) (infos cur)
      then stitchLoop cfg infos stitched (grp @ [cur]) cur rest
      else stitchLoop cfg infos (stitched @ grp) [cur] cur rest)"

definition stitchParagraph :: "LayoutSettings \<Rightarrow> ('s \<Rightarrow> SpanInfo) \<Rightarrow> 's list \<Rightarrow> 's list" where
  "stitchParagraph cfg infos p =
     (if length p < 2 then p
      else (case sortSpansTopLeft infos p of
              [] \<Rightarrow> []
            | s # rest \<Rightarrow> stitchLoop cfg infos [] [s] s rest))"

definition stitchInlineLigaturesFromInfos ::
  "LayoutSettings \<Rightarrow> 's list list \<Rightarrow> ('s \<Rightarrow> SpanInfo) \<Rightarrow> 's list list" where
  "stitchInlineLigaturesFromInfos cfg paragraphs infos =
     (if paragraphs = [] then paragraphs else map (stitchParagraph cfg infos) paragraphs)"

section \<open>GapDetector\<close>

definition clamp01 :: "real \<Rightarrow> real" where
  "clamp01 x = max 0 (min 1 x)"

definition sortNumbers :: "real list \<Rightarrow> real list" where
  "sortNumbers a = sortBy (\<lambda>x y. x - y) a"

text \<open>The middle of the sorted list \<open>s\<close>, as \<open>median\<close> and the line-height estimates take it.\<close>

definition middleOf :: "real list \<Rightarrow> real" where
  "middleOf s =
     (let m = length s div 2
      in if length s mod 2 \<noteq> 0 then s ! m else (s ! (m - 1) + s ! m) / 2)"

definition median :: "real list \<Rightarrow> real" where
  "median a = (if a = [] then 0 else middleOf (sortNumbers a))"

definition stddev :: "real list \<Rightarrow> real" where
  "stddev a =
     (if a = [] then 0
      else if length a = 1 then 0
      else
        (let mean = sum_list a / real (length a);
             variance = sum_list (map (\<lambda>v. (v - mean) * (v - mean)) a) / (real (length a) - 1)
         in sqrt variance))"

text \<open>\<open>Math.round\<close> rounds half up.\<close>

definition jsRound :: "real \<Rightarrow> int" where
  "jsRound y = \<lfloor>y + 1 / 2\<rfloor>"

definition approxUniqueBandCount :: "real list \<Rightarrow> nat" where
  "approxUniqueBandCount y1s = length (remdups (map jsRound y1s))"

definition estimateAverageLineHeight :: "RectLike list \<Rightarrow> real" where
  "estimateAverageLineHeight spanRects =
     (if spanRects = [] then 15
      else
        (let heights = filter (\<lambda>h. h > 3) (map r_height spanRects)
         in if heights = [] then 15 else middleOf (sortNumbers heights)))"

record YBand =
  b_y1 :: real
  b_y2 :: real
  b_gaps :: "(real \<times> real) list"

text \<open>The loop that merges the occupied intervals, sorted by \<open>left\<close>, into \<open>mergedOcc\<close>.\<close>

fun mergeOcc :: "(real \<times> real) list \<Rightarrow> (real \<times> real) list \<Rightarrow> (real \<times> real) list" where
  "mergeOcc mergedOcc [] = mergedOcc"
| "mergeOcc mergedOcc ((l, r) # occ) =
     (if mergedOcc = [] \<or> l > snd (last mergedOcc) then mergeOcc (mergedOcc @ [(l, r)]) occ
      else mergeOcc (butlast mergedOcc
                     @ [(fst (last mergedOcc), max (snd (last mergedOcc)) r)]) occ)"

text \<open>
  The inversion of the occupied intervals into gaps within the page: the state is
  \<open>cursor\<close> and \<open>gaps\<close>; the last equation is the gap up to the right page edge.
\<close>

fun invertOcc :: "real \<Rightarrow> real \<Rightarrow> (real \<times> real) list \<Rightarrow> (real \<times> real) list \<Rightarrow> (real \<times> real) list" where
  "invertOcc pageRight cursor gaps [] =
     (if pageRight - cursor \<ge> 2 then gaps @ [(cursor, pageRight)] else gaps)"
| "invertOcc pageRight cursor gaps ((l, r) # ms) =
     invertOcc pageRight (max cursor r)
       (if l - cursor \<ge> 2 then gaps @ [(cursor, l)] else gaps) ms"

definition bandAt :: "RectLike list \<Rightarrow> RectLike \<Rightarrow> real \<Rightarrow> real \<Rightarrow> YBand" where
  "bandAt spanRects pageRect bandStep y =
     (let y1 = y;
          y2 = min (r_bottom pageRect) (y + bandStep);
          active = filter (\<lambda>r. r_bottom r > y1 \<and> r_top r < y2) spanRects
      in if active = [] then
           \<lparr>b_y1 = y1, b_y2 = y2, b_gaps = [(r_left pageRect, r_right pageRect)]\<rparr>
         else
           (let occ = sortBy (\<lambda>a b. fst a - fst b) (map (\<lambda>r. (r_left r, r_right r)) active);
                mergedOcc = mergeOcc [] occ
            in \<lparr>b_y1 = y1, b_y2 = y2,
                b_gaps = invertOcc (r_right pageRect) (r_left pageRect) [] mergedOcc\<rparr>))"

text \<open>
  The sweep \<open>for (y = pageRect.top; y < pageRect.bottom; y += bandStep)\<close>; the step is
  at least \<open>6\<close>, so the sweep ends.  The positions \<open>y\<close> are the exact sums here; the
  program adds in doubles, so where a position comes within a rounding error of the
  page bottom its number of bands can differ by one from the number here.  The statements
  below about every page do not depend on that number: what follows the sweep is stated
  for any list of bands.
\<close>

definition bandStepOf :: "real \<Rightarrow> real" where
  "bandStepOf avgLine = max 6 (avgLine * 0.75)"

function sweepBands :: "RectLike list \<Rightarrow> RectLike \<Rightarrow> real \<Rightarrow> real \<Rightarrow> YBand list" where
  "sweepBands spanRects pageRect avgLine y =
     (if y < r_bottom pageRect
      then bandAt spanRects pageRect (bandStepOf avgLine) y
           # sweepBands spanRects pageRect avgLine (y + bandStepOf avgLine)
      else [])"
  by pat_completeness auto
termination
proof (relation "measure (\<lambda>(spanRects, pageRect, avgLine, y).
                   nat \<lceil>(r_bottom pageRect - y) / bandStepOf avgLine\<rceil>)", goal_cases)
  case 1
  show ?case by simp
next
  case (2 spanRects pageRect avgLine y)
  have pos: "bandStepOf avgLine > 0"
    by (simp add: bandStepOf_def)
  have "(r_bottom pageRect - (y + bandStepOf avgLine)) / bandStepOf avgLine
          = (r_bottom pageRect - y) / bandStepOf avgLine - 1"
    using pos by (simp add: field_simps)
  moreover have "(r_bottom pageRect - y) / bandStepOf avgLine > 0"
    using pos 2 by simp
  ultimately show ?case
    by simp
qed

declare sweepBands.simps [simp del]

record Cluster =
  c_centers :: "real list"
  c_widths :: "real list"
  c_lefts :: "real list"
  c_rights :: "real list"
  c_y1s :: "real list"
  c_y2s :: "real list"

text \<open>
  The placement of one gap: the first cluster whose last centre is within \<open>xTol\<close>
  takes it, otherwise a new cluster is pushed at the end.
\<close>

fun placeGap :: "real \<Rightarrow> real \<Rightarrow> real \<Rightarrow> (real \<times> real) \<Rightarrow> Cluster list \<Rightarrow> Cluster list" where
  "placeGap xTol y1 y2 (l, r) [] =
     [\<lparr>c_centers = [(l + r) / 2], c_widths = [r - l], c_lefts = [l], c_rights = [r],
       c_y1s = [y1], c_y2s = [y2]\<rparr>]"
| "placeGap xTol y1 y2 (l, r) (c # cs) =
     (if \<bar>(l + r) / 2 - last (c_centers c)\<bar> \<le> xTol
      then \<lparr>c_centers = c_centers c @ [(l + r) / 2], c_widths = c_widths c @ [r - l],
            c_lefts = c_lefts c @ [l], c_rights = c_rights c @ [r],
            c_y1s = c_y1s c @ [y1], c_y2s = c_y2s c @ [y2]\<rparr> # cs
      else c # placeGap xTol y1 y2 (l, r) cs)"

definition clusterBand :: "real \<Rightarrow> YBand \<Rightarrow> Cluster list \<Rightarrow> Cluster list" where
  "clusterBand xTol band clusters =
     fold (\<lambda>g cs. if snd g - fst g < 2 then cs else placeGap xTol (b_y1 band) (b_y2 band) g cs)
       (b_gaps band) clusters"

definition clusterGaps :: "real \<Rightarrow> YBand list \<Rightarrow> Cluster list" where
  "clusterGaps avgLine bands = fold (clusterBand (max 4 (avgLine * 0.5))) bands []"

definition minOfList :: "real list \<Rightarrow> real" where
  "minOfList xs = (case xs of [] \<Rightarrow> 0 | x # r \<Rightarrow> fold min r x)"

definition maxOfList :: "real list \<Rightarrow> real" where
  "maxOfList xs = (case xs of [] \<Rightarrow> 0 | x # r \<Rightarrow> fold max r x)"

text \<open>The confidence of the strip of one cluster, before the threshold.\<close>

definition clusterConfidence :: "nat \<Rightarrow> Cluster \<Rightarrow> real" where
  "clusterConfidence totalBands c =
     (let coverage = real (approxUniqueBandCount (c_y1s c)) / real totalBands;
          widthStd = stddev (c_widths c);
          centerStd = stddev (c_centers c);
          normWidthStd = widthStd / max 1 (median (c_widths c));
          normCenterStd = centerStd / max 1 (median (c_centers c))
      in clamp01 (0.5 * coverage + 0.25 * (1 - clamp01 normWidthStd)
                  + 0.25 * (1 - clamp01 normCenterStd)))"

definition clusterStrip :: "real \<Rightarrow> nat \<Rightarrow> Cluster \<Rightarrow> VerticalStrip list" where
  "clusterStrip avgLine totalBands c =
     (if c_centers c = [] then []
      else
        (let tp = minOfList (c_y1s c);
             bt = maxOfList (c_y2s c)
         in if bt - tp < avgLine * 1.5 then []
            else if clusterConfidence totalBands c \<ge> 0.6
            then [\<lparr>vs_left = median (c_lefts c), vs_right = median (c_rights c),
                   vs_top = tp, vs_bottom = bt,
                   vs_confidence = clusterConfidence totalBands c\<rparr>]
            else []))"

text \<open>\<open>mergeSimilarStrips\<close>: the loop over the strips sorted by centre; \<open>cur\<close> is the state.\<close>

fun mergeStripsLoop :: "VerticalStrip \<Rightarrow> VerticalStrip list \<Rightarrow> VerticalStrip list" where
  "mergeStripsLoop cur [] = [cur]"
| "mergeStripsLoop cur (s # ss) =
     (if \<bar>(vs_left cur + vs_right cur) / 2 - (vs_left s + vs_right s) / 2\<bar> \<le> 3
         \<and> min (vs_bottom cur) (vs_bottom s) - max (vs_top cur) (vs_top s) > 0
      then mergeStripsLoop
             \<lparr>vs_left = min (vs_left cur) (vs_left s), vs_right = max (vs_right cur) (vs_right s),
              vs_top = min (vs_top cur) (vs_top s), vs_bottom = max (vs_bottom cur) (vs_bottom s),
              vs_confidence = max (vs_confidence cur) (vs_confidence s)\<rparr> ss
      else cur # mergeStripsLoop s ss)"

definition mergeSimilarStrips :: "VerticalStrip list \<Rightarrow> VerticalStrip list" where
  "mergeSimilarStrips strips =
     (case sortBy (\<lambda>a b. (vs_left a + vs_right a) / 2 - (vs_left b + vs_right b) / 2) strips of
        [] \<Rightarrow> []
      | s # ss \<Rightarrow> mergeStripsLoop s ss)"

text \<open>
  \<open>detectStripsAndBands\<close> after the sweep (its steps 2 to 5): the gaps of the bands
  are clustered, every cluster that is high and confident enough gives a strip, and
  similar strips are merged.  \<open>totalBands\<close> is the number of bands.
\<close>

definition stripsOfBands :: "real \<Rightarrow> YBand list \<Rightarrow> VerticalStrip list" where
  "stripsOfBands avgLine bands =
     (let clusters = clusterGaps avgLine bands;
          strips = concat (map (clusterStrip avgLine (length bands)) clusters)
      in mergeSimilarStrips strips)"

text \<open>
  \<open>detectStripsAndBands\<close>: the strips, and the horizontal bands, which the source
  leaves empty.
\<close>

definition detectStripsAndBands ::
  "RectLike list \<Rightarrow> RectLike \<Rightarrow> real \<Rightarrow> VerticalStrip list \<times> HorizontalBand list" where
  "detectStripsAndBands spanRects pageRect avgLine =
     (let bands = sweepBands spanRects pageRect avgLine (r_top pageRect)
      in (stripsOfBands avgLine bands, []))"

text \<open>
  \<open>detectGapsFromRects\<close>, restricted to the two components of the analysis that the
  layout detector reads for the paragraphs (\<open>verticalStrips\<close>, \<open>horizontalBands\<close>).
\<close>

definition detectGapsFromRects ::
  "RectLike list \<Rightarrow> RectLike \<Rightarrow> VerticalStrip list \<times> HorizontalBand list" where
  "detectGapsFromRects spanRects pageRect =
     (if spanRects = [] then ([], [])
      else detectStripsAndBands spanRects pageRect (estimateAverageLineHeight spanRects))"

section \<open>LayoutDetector\<close>

text \<open>
  The keys of the snapshot built by \<open>buildSnapshot\<close>: \<open>map.set\<close> keeps the position of
  the first insertion of a span.
\<close>

definition snapshotKeys :: "'s list \<Rightarrow> 's list" where
  "snapshotKeys spans = fold (\<lambda>s ks. if s \<in> set ks then ks else ks @ [s]) spans []"

text \<open>\<open>Array.prototype.slice(start, end)\<close> with integer arguments.\<close>

definition jsSlice :: "'a list \<Rightarrow> int \<Rightarrow> int \<Rightarrow> 'a list" where
  "jsSlice xs s e =
     (let n = int (length xs);
          s' = (if s < 0 then max (n + s) 0 else min s n);
          e' = (if e < 0 then max (n + e) 0 else min e n)
      in take (nat (e' - s')) (drop (nat s') xs))"

fun lineGaps :: "real \<Rightarrow> RectLike list \<Rightarrow> real list" where
  "lineGaps limit (a # b # rest) =
     (if r_top b - r_bottom a > 0 \<and> r_top b - r_bottom a < limit
      then [r_top b - r_bottom a] else [])
     @ lineGaps limit (b # rest)"
| "lineGaps limit _ = []"

definition paragraphGaps ::
  "LayoutSettings \<Rightarrow> ('s \<Rightarrow> SpanInfo) \<Rightarrow> RectLike \<Rightarrow> 's list \<Rightarrow> real list" where
  "paragraphGaps cfg infos pageRect p =
     (if length p < 2 then []
      else lineGaps (r_height pageRect * maxGapFractionOfPageHeight cfg)
             (sortBy (\<lambda>a b. r_top a - r_top b) (map (\<lambda>s. rect (infos s)) p)))"

definition estimateLineHeightFromInfos ::
  "LayoutSettings \<Rightarrow> 's list list \<Rightarrow> ('s \<Rightarrow> SpanInfo) \<Rightarrow> 's list \<Rightarrow> RectLike \<Rightarrow> real" where
  "estimateLineHeightFromInfos cfg paragraphs infos keys pageRect =
     (let gaps = concat (map (paragraphGaps cfg infos pageRect) paragraphs);
          lhFromGaps =
            (if real (length gaps) \<ge> minGapsForTrim cfg then
               (let sortedGaps = sortNumbers gaps;
                    trim = \<lfloor>real (length gaps) * trimPercent cfg\<rfloor>;
                    trimmed = jsSlice sortedGaps trim (int (length gaps) - trim)
                in if trimmed = [] then None
                   else Some (sum_list trimmed / real (length trimmed)
                              * lineHeightFromAvgMultiplier cfg))
             else None);
          fontSizes = filter (\<lambda>v. v > 0) (map (\<lambda>s. fontSize (style (infos s))) keys)
      in if fontSizes = [] then 16
         else
           (let med = middleOf (sortNumbers fontSizes);
                floorV = med * lineHeightMultiplier cfg * floorMultiplier cfg;
                chosen = max (case lhFromGaps of None \<Rightarrow> 0 | Some v \<Rightarrow> v) floorV
            in if chosen = 0 then med * lineHeightMultiplier cfg else chosen))"

text \<open>The loop of \<open>buildLayoutBands\<close> that merges the bands sorted by \<open>y\<close>.\<close>

fun mergeBandsLoop ::
  "LayoutSettings \<Rightarrow> real \<Rightarrow> HorizontalBand list \<Rightarrow> HorizontalBand list \<Rightarrow> HorizontalBand list" where
  "mergeBandsLoop cfg lineHeight merged [] = merged"
| "mergeBandsLoop cfg lineHeight merged (b # bs) =
     (if merged = [] then mergeBandsLoop cfg lineHeight [b] bs
      else
        (let lst = last merged;
             lastBottom = hb_y lst + hb_height lst
         in if hb_y b \<le> lastBottom
                  + max (bandMergeGapPx cfg) (lineHeight * bandMergeGapLineHeightMultiplier cfg)
            then mergeBandsLoop cfg lineHeight
                   (butlast merged
                    @ [\<lparr>hb_y = hb_y lst,
                         hb_height = max lastBottom (hb_y b + hb_height b) - hb_y lst,
                         hb_confidence = max (hb_confidence lst) (hb_confidence b)\<rparr>]) bs
            else mergeBandsLoop cfg lineHeight (merged @ [b]) bs))"

definition inferredBands ::
  "LayoutSettings \<Rightarrow> VerticalStrip list \<Rightarrow> RectLike \<Rightarrow> real \<Rightarrow> HorizontalBand list" where
  "inferredBands cfg strips pageRect lineHeight =
     (if strips = [] then []
      else
        (let minTop = minOfList (map vs_top strips);
             maxBottom = maxOfList (map vs_bottom strips)
         in (if minTop > r_top pageRect + lineHeight * bandTopBottomThresholdMultiplier cfg
             then [\<lparr>hb_y = r_top pageRect, hb_height = minTop - r_top pageRect,
                    hb_confidence = inferredBandConfidence cfg\<rparr>] else [])
            @ (if maxBottom < r_bottom pageRect
                                - lineHeight * bandTopBottomThresholdMultiplier cfg
               then [\<lparr>hb_y = maxBottom, hb_height = r_bottom pageRect - maxBottom,
                      hb_confidence = inferredBandConfidence cfg\<rparr>] else [])))"

definition buildLayoutBands ::
  "LayoutSettings \<Rightarrow> HorizontalBand list \<Rightarrow> VerticalStrip list \<Rightarrow> RectLike \<Rightarrow> real
     \<Rightarrow> HorizontalBand list" where
  "buildLayoutBands cfg bands strips pageRect lineHeight =
     mergeBandsLoop cfg lineHeight []
       (sortBy (\<lambda>a b. hb_y a - hb_y b) (bands @ inferredBands cfg strips pageRect lineHeight))"

text \<open>
  The bands made from the horizontal lines of the grid detector.  The grid detector is
  not part of the sources at hand; its result enters as the list of line positions.
\<close>

definition gridBandsOf :: "LayoutSettings \<Rightarrow> real \<Rightarrow> real list \<Rightarrow> HorizontalBand list" where
  "gridBandsOf cfg lineHeight horizontalLines =
     map (\<lambda>position.
            let gapHeight = lineHeight * (if bandMergeGapLineHeightMultiplier cfg = 0 then 1
                                          else bandMergeGapLineHeightMultiplier cfg)
            in \<lparr>hb_y = position - gapHeight / 2, hb_height = gapHeight, hb_confidence = 0.95\<rparr>)
       horizontalLines"

definition stripCenter :: "VerticalStrip \<Rightarrow> real" where
  "stripCenter s = (vs_left s + vs_right s) / 2"

definition keptStrips :: "LayoutSettings \<Rightarrow> VerticalStrip list \<Rightarrow> VerticalStrip list" where
  "keptStrips cfg verticalStripsAll =
     sortBy (\<lambda>a b. stripCenter a - stripCenter b)
       (filter (\<lambda>s. vs_confidence s \<ge> minStripConfidence cfg
                     \<and> vs_right s - vs_left s \<ge> minStripWidthPx cfg) verticalStripsAll)"

definition layoutBandsOf ::
  "LayoutSettings \<Rightarrow> RectLike \<Rightarrow> real \<Rightarrow> VerticalStrip list \<Rightarrow> HorizontalBand list \<Rightarrow> real list
     \<Rightarrow> HorizontalBand list" where
  "layoutBandsOf cfg pageRect lineHeight verticalStripsAll gapBands horizontalLines =
     buildLayoutBands cfg
       (filter (\<lambda>b. hb_confidence b \<ge> minBandConfidence cfg) gapBands
        @ gridBandsOf cfg lineHeight horizontalLines)
       (keptStrips cfg verticalStripsAll) pageRect lineHeight"

subsection \<open>Ordering inside a paragraph\<close>

fun midpoints :: "real list \<Rightarrow> VerticalStrip list \<Rightarrow> real list" where
  "midpoints xs [] = xs"
| "midpoints xs (st # sts) =
     (if stripCenter st > last xs then midpoints (xs @ [stripCenter st]) sts
      else midpoints xs sts)"

definition buildColumnRegionsFromStrips ::
  "LayoutSettings \<Rightarrow> VerticalStrip list \<Rightarrow> RectLike \<Rightarrow> (real \<times> real) list" where
  "buildColumnRegionsFromStrips cfg strips pageRect =
     (if strips = [] then [(r_left pageRect, r_right pageRect)]
      else
        filter (\<lambda>(l, r). r - l > minRegionWidth cfg)
          (regionsOf
             (midpoints [r_left pageRect]
                (sortBy (\<lambda>a b. stripCenter a - stripCenter b) strips)
              @ [r_right pageRect])))"

text \<open>An entry of \<open>perBandRegions\<close>: the band as \<open>(top, bottom)\<close> and its regions.\<close>

type_synonym bandRegions = "(real \<times> real) \<times> (real \<times> real) list"

definition buildPerBandColumnRegions ::
  "LayoutSettings \<Rightarrow> VerticalStrip list \<Rightarrow> RectLike \<Rightarrow> HorizontalBand list \<Rightarrow> bandRegions list" where
  "buildPerBandColumnRegions cfg strips pageRect bands =
     map (\<lambda>band.
            let tp = hb_y band;
                bt = hb_y band + hb_height band;
                bandStrips =
                  filter (\<lambda>s.
                     let yOverlap = min bt (vs_bottom s) - max tp (vs_top s);
                         stripH = vs_bottom s - vs_top s;
                         overlapFrac = yOverlap / max 1 (max stripH (bt - tp))
                     in yOverlap > 0 \<and> overlapFrac \<ge> minOverlapFracForBand cfg) strips
            in ((tp, bt), buildColumnRegionsFromStrips cfg bandStrips pageRect)) bands
     @ (if bands = [] then
          [((r_top pageRect, r_bottom pageRect), buildColumnRegionsFromStrips cfg strips pageRect)]
        else [])"

text \<open>
  The search for the band with the largest overlap fraction: the state is \<open>bestIdx\<close>
  (\<open>None\<close> for \<open>-1\<close>) and \<open>bestOverlap\<close>; \<open>i\<close> is the index of the head of the list.
\<close>

fun bestBand :: "real \<Rightarrow> real \<Rightarrow> nat \<Rightarrow> nat option \<Rightarrow> real \<Rightarrow> bandRegions list \<Rightarrow> nat option" where
  "bestBand sTop sBot i bestIdx bestOverlap [] = bestIdx"
| "bestBand sTop sBot i bestIdx bestOverlap (((tp, bt), regions) # rest) =
     (let yOverlap = min sBot bt - max sTop tp
      in if yOverlap \<le> 0 then bestBand sTop sBot (Suc i) bestIdx bestOverlap rest
         else if yOverlap / max 1 (max (sBot - sTop) (bt - tp)) > bestOverlap
         then bestBand sTop sBot (Suc i) (Some i)
                (yOverlap / max 1 (max (sBot - sTop) (bt - tp))) rest
         else bestBand sTop sBot (Suc i) bestIdx bestOverlap rest)"

text \<open>
  The search for the band with the nearest centre: \<open>bestDist\<close> starts at \<open>Infinity\<close>
  (\<open>None\<close>) and \<open>idx\<close> at \<open>0\<close>.
\<close>

fun nearestBand :: "real \<Rightarrow> nat \<Rightarrow> nat \<Rightarrow> real option \<Rightarrow> bandRegions list \<Rightarrow> nat" where
  "nearestBand sc i idx bestDist [] = idx"
| "nearestBand sc i idx bestDist (((tp, bt), regions) # rest) =
     (if (case bestDist of None \<Rightarrow> True | Some d \<Rightarrow> \<bar>sc - (tp + bt) / 2\<bar> < d)
      then nearestBand sc (Suc i) i (Some \<bar>sc - (tp + bt) / 2\<bar>) rest
      else nearestBand sc (Suc i) idx bestDist rest)"

definition bandIndexOf :: "bandRegions list \<Rightarrow> RectLike \<Rightarrow> nat" where
  "bandIndexOf perBandRegions r =
     (case bestBand (r_top r) (r_bottom r) 0 None 0 perBandRegions of
        Some i \<Rightarrow> i
      | None \<Rightarrow> nearestBand ((r_top r + r_bottom r) / 2) 0 0 None perBandRegions)"

text \<open>
  The ordering of the spans of one band bucket.  An empty region list stands for the
  single region from \<open>-Infinity\<close> to \<open>Infinity\<close> of the source, which holds every span.
\<close>

definition orderBucket ::
  "('s \<Rightarrow> SpanInfo) \<Rightarrow> 's list \<Rightarrow> (real \<times> real) list \<Rightarrow> 's list" where
  "orderBucket infos spans regions =
     (if regions = [] then sortSpansTopLeft infos spans
      else
        (let colBuckets =
               map (\<lambda>k. filter (\<lambda>s. regionIndex (spanCenterX infos s) regions = k) spans)
                 [0 ..< length regions]
         in if length (filter (\<lambda>b. b \<noteq> []) colBuckets) \<le> 1 then sortSpansTopLeft infos spans
            else concat (map (sortSpansTopLeft infos) colBuckets)))"

definition orderParagraphByBandsAndColumns ::
  "'s list \<Rightarrow> ('s \<Rightarrow> SpanInfo) \<Rightarrow> bandRegions list \<Rightarrow> 's list" where
  "orderParagraphByBandsAndColumns paragraph infos perBandRegions =
     (if paragraph = [] then paragraph
      else if perBandRegions = [] then
        (let ordered = orderBucket infos paragraph []
         in if ordered = [] then paragraph else ordered)
      else
        (let ordered =
               concat (map (\<lambda>k.
                              let spans = filter (\<lambda>s. bandIndexOf perBandRegions (rect (infos s)) = k)
                                            paragraph
                              in if spans = [] then []
                                 else orderBucket infos spans (snd (perBandRegions ! k)))
                         [0 ..< length perBandRegions])
         in if ordered = [] then paragraph else ordered))"

subsection \<open>Deduplication\<close>

text \<open>
  \<open>deduplicateParagraphs\<close>: \<open>seen\<close> is \<open>globalSeen\<close>; \<open>paragraphSeen\<close> only ever holds
  spans that are in \<open>globalSeen\<close> too.
\<close>

fun dedupSpans :: "'s set \<Rightarrow> 's list \<Rightarrow> 's list \<times> 's set" where
  "dedupSpans seen [] = ([], seen)"
| "dedupSpans seen (s # ss) =
     (if s \<in> seen then dedupSpans seen ss
      else (case dedupSpans (insert s seen) ss of (u, seen') \<Rightarrow> (s # u, seen')))"

fun dedupLoop :: "'s set \<Rightarrow> 's list list \<Rightarrow> 's list list" where
  "dedupLoop seen [] = []"
| "dedupLoop seen (p # ps) =
     (case dedupSpans seen p of
        (u, seen') \<Rightarrow> (if u = [] then [] else [u]) @ dedupLoop seen' ps)"

definition deduplicateParagraphs :: "'s list list \<Rightarrow> 's list list" where
  "deduplicateParagraphs paragraphs = dedupLoop {} paragraphs"

subsection \<open>The pipeline\<close>

text \<open>
  Step 7 of \<open>detectLayout\<close>: \<open>while (guard++ < maxIterMerges)\<close>.  The merger is called
  without \<open>viewportWidth\<close>, and the strip validation without \<open>lineHeight\<close> (default 0).
\<close>

function nestedLoop ::
  "LayoutSettings \<Rightarrow> ('s \<Rightarrow> SpanInfo) \<Rightarrow> real \<Rightarrow> VerticalStrip list \<Rightarrow> HorizontalBand list
     \<Rightarrow> nat \<Rightarrow> 's list list \<Rightarrow> 's list list option" where
  "nestedLoop cfg infos lineHeight verticalStrips layoutBands guard paragraphs =
     (if real guard < maxIterMerges cfg then
        (case mergeNestedParagraphsOnceFromInfos cfg paragraphs infos verticalStrips layoutBands
                None of
           None \<Rightarrow> None
         | Some (mergedOnce, changed) \<Rightarrow>
             if \<not> changed then Some mergedOnce
             else
               (case mergeParagraphsFromInfos cfg
                       (validateParagraphsAgainstStripsFromInfos cfg mergedOnce infos
                          verticalStrips 0 None)
                       infos lineHeight verticalStrips layoutBands None of
                  None \<Rightarrow> None
                | Some ps \<Rightarrow>
                    nestedLoop cfg infos lineHeight verticalStrips layoutBands (Suc guard) ps))
      else Some paragraphs)"
  by pat_completeness auto
termination
  by (relation "measure (\<lambda>(cfg, infos, lineHeight, verticalStrips, layoutBands, guard, ps).
                  nat \<lceil>maxIterMerges cfg\<rceil> - guard)")
     (auto, linarith)

declare nestedLoop.simps [simp del]

text \<open>
  Steps 5 to 7.5 of \<open>detectLayout\<close> (stages 2 to 5 of the merger: strip validation,
  stacked merge, the loop of nested merges, the final stacked pass), from a paragraph
  list, the line height, the kept strips and the layout bands.
\<close>

definition mergeStages ::
  "LayoutSettings \<Rightarrow> ('s \<Rightarrow> SpanInfo) \<Rightarrow> real \<Rightarrow> VerticalStrip list
     \<Rightarrow> HorizontalBand list \<Rightarrow> 's list list \<Rightarrow> 's list list option" where
  "mergeStages cfg infos lineHeight verticalStrips layoutBands paragraphs =
     (case mergeParagraphsFromInfos cfg
             (validateParagraphsAgainstStripsFromInfos cfg paragraphs infos verticalStrips 0 None)
             infos lineHeight verticalStrips layoutBands None of
        None \<Rightarrow> None
      | Some p6 \<Rightarrow>
          (case nestedLoop cfg infos lineHeight verticalStrips layoutBands 0 p6 of
             None \<Rightarrow> None
           | Some p7 \<Rightarrow>
               mergeStackedColumnParagraphsFromInfos cfg p7 infos lineHeight verticalStrips
                 layoutBands None))"

text \<open>Steps 8 to 9.5: stitching, ordering by bands and columns, sorting, deduplication.\<close>

definition finishStages ::
  "LayoutSettings \<Rightarrow> ('s \<Rightarrow> SpanInfo) \<Rightarrow> RectLike \<Rightarrow> VerticalStrip list
     \<Rightarrow> HorizontalBand list \<Rightarrow> 's list list \<Rightarrow> 's list list" where
  "finishStages cfg infos pageRect verticalStrips layoutBands p75 =
     (let p8 = stitchInlineLigaturesFromInfos cfg p75 infos;
          p85 = (if layoutBands = [] then p8
                 else map (\<lambda>para. orderParagraphByBandsAndColumns para infos
                                     (buildPerBandColumnRegions cfg verticalStrips
                                        pageRect layoutBands)) p8);
          p9 = map (sortSpansTopLeft infos) p85
      in deduplicateParagraphs p9)"

definition layoutStages ::
  "LayoutSettings \<Rightarrow> ('s \<Rightarrow> SpanInfo) \<Rightarrow> RectLike \<Rightarrow> real \<Rightarrow> VerticalStrip list
     \<Rightarrow> HorizontalBand list \<Rightarrow> 's list list \<Rightarrow> 's list list option" where
  "layoutStages cfg infos pageRect lineHeight verticalStrips layoutBands paragraphs =
     map_option (finishStages cfg infos pageRect verticalStrips layoutBands)
       (mergeStages cfg infos lineHeight verticalStrips layoutBands paragraphs)"

text \<open>
  \<open>detectLayout\<close> with the results of the two detectors given: the strips and bands of
  the gap analysis and the horizontal lines of the grid analysis.  The result is the
  component \<open>paragraphs\<close> of the layout result.
\<close>

definition detectLayoutFrom ::
  "LayoutSettings \<Rightarrow> ('s \<Rightarrow> SpanInfo) \<Rightarrow> 's list \<Rightarrow> RectLike \<Rightarrow> VerticalStrip list
     \<Rightarrow> HorizontalBand list \<Rightarrow> (real \<Rightarrow> real list) \<Rightarrow> 's list list option" where
  "detectLayoutFrom cfg infos spans pageRect verticalStripsAll gapBands gridLines =
     (let keys = snapshotKeys spans;
          paragraphs = mergeIntoParagraphsFromInfos cfg infos keys;
          lineHeight = estimateLineHeightFromInfos cfg paragraphs infos keys pageRect
      in layoutStages cfg infos pageRect lineHeight (keptStrips cfg verticalStripsAll)
           (layoutBandsOf cfg pageRect lineHeight verticalStripsAll gapBands
              (gridLines lineHeight))
           paragraphs)"

text \<open>
  \<open>detectLayout\<close>.  \<open>gridDetector\<close> stands for \<open>gridDetector.detectGrid\<close> followed by
  the positions of its \<open>horizontalLines\<close> (none when the analysis is missing).
\<close>

definition detectLayout ::
  "LayoutSettings \<Rightarrow> (RectLike list \<Rightarrow> RectLike \<Rightarrow> real \<Rightarrow> real list) \<Rightarrow> ('s \<Rightarrow> SpanInfo)
     \<Rightarrow> 's list \<Rightarrow> RectLike \<Rightarrow> 's list list option" where
  "detectLayout cfg gridDetector infos spans pageRect =
     (let rects = map (\<lambda>s. rect (infos s)) (snapshotKeys spans)
      in detectLayoutFrom cfg infos spans pageRect
           (fst (detectGapsFromRects rects pageRect)) (snd (detectGapsFromRects rects pageRect))
           (gridDetector rects pageRect))"

section \<open>RegionDetector\<close>

record LayoutSegment =
  seg_top :: real
  seg_bottom :: real
  seg_left :: real
  seg_right :: real
  seg_columns :: nat

record DensityPoint =
  d_y :: real
  d_cols :: nat
  d_left :: real
  d_right :: real

text \<open>\<open>DEFAULT_OPTIONS\<close>.\<close>

definition columnGapMultiplier :: real where "columnGapMultiplier = 2.0"
definition shiftMultiplier :: real where "shiftMultiplier = 4.0"
definition minSegmentHeightMultiplier :: real where "minSegmentHeightMultiplier = 2.0"

text \<open>\<open>columns.reduce\<close>: the closest column so far wins unless a later one is strictly closer.\<close>

definition closestCol :: "real \<Rightarrow> real \<Rightarrow> real list \<Rightarrow> real" where
  "closestCol currentLeft c cs =
     fold (\<lambda>cur prv. if \<bar>cur - currentLeft\<bar> < \<bar>prv - currentLeft\<bar> then cur else prv) cs c"

fun columnsLoop :: "real \<Rightarrow> real \<Rightarrow> real list \<Rightarrow> real list \<Rightarrow> real list" where
  "columnsLoop gapThreshold c0 columns [] = c0 # columns"
| "columnsLoop gapThreshold c0 columns (currentLeft # rest) =
     (if \<bar>currentLeft - closestCol currentLeft c0 columns\<bar> > gapThreshold
      then columnsLoop gapThreshold c0 (columns @ [currentLeft]) rest
      else columnsLoop gapThreshold c0 columns rest)"

definition countColumnsHistogram :: "RectLike list \<Rightarrow> real \<Rightarrow> nat" where
  "countColumnsHistogram spans gapThreshold =
     (if spans = [] then 0
      else if length spans = 1 then 1
      else (case sortNumbers (map r_left spans) of
              [] \<Rightarrow> 0
            | c0 # rest \<Rightarrow> length (columnsLoop gapThreshold c0 [] rest)))"

definition sampleStep :: "real \<Rightarrow> real" where
  "sampleStep avgLineHeight = max 5 (avgLineHeight * 0.5)"

text \<open>
  The sampling loop.  \<open>pending\<close> is the part of \<open>sortedSpans\<close> from \<open>spanIndex\<close> on and
  \<open>activeSpans\<close> the window; the result is the list of density points pushed from \<open>y\<close> on.
\<close>

function sampleLoop ::
  "RectLike \<Rightarrow> real \<Rightarrow> RectLike list \<Rightarrow> RectLike list \<Rightarrow> real \<Rightarrow> DensityPoint list" where
  "sampleLoop pageRect avgLineHeight pending activeSpans y =
     (if y < r_bottom pageRect then
        (let kept = filter (\<lambda>s. \<not> r_bottom s < y) activeSpans;
             entered = takeWhile (\<lambda>s. r_top s \<le> y) pending;
             active = kept @ filter (\<lambda>s. r_bottom s \<ge> y) entered;
             pending' = dropWhile (\<lambda>s. r_top s \<le> y) pending
         in (if active = [] then []
             else [\<lparr>d_y = y,
                     d_cols = countColumnsHistogram active (columnGapMultiplier * avgLineHeight),
                     d_left = minOfList (map r_left active),
                     d_right = maxOfList (map r_right active)\<rparr>])
            @ sampleLoop pageRect avgLineHeight pending' active (y + sampleStep avgLineHeight))
      else [])"
  by pat_completeness auto
termination
proof (relation "measure (\<lambda>(pageRect, avgLineHeight, pending, activeSpans, y).
                   nat \<lceil>(r_bottom pageRect - y) / sampleStep avgLineHeight\<rceil>)", goal_cases)
  case 1
  show ?case by simp
next
  case (2 pageRect avgLineHeight pending activeSpans y)
  have pos: "sampleStep avgLineHeight > 0"
    by (simp add: sampleStep_def)
  have "(r_bottom pageRect - (y + sampleStep avgLineHeight)) / sampleStep avgLineHeight
          = (r_bottom pageRect - y) / sampleStep avgLineHeight - 1"
    using pos by (simp add: field_simps)
  moreover have "(r_bottom pageRect - y) / sampleStep avgLineHeight > 0"
    using pos 2 by simp
  ultimately show ?case
    by simp
qed

declare sampleLoop.simps [simp del]

definition sampleDensityProfile :: "RectLike list \<Rightarrow> RectLike \<Rightarrow> real \<Rightarrow> DensityPoint list" where
  "sampleDensityProfile sortedSpans pageRect avgLineHeight =
     sampleLoop pageRect avgLineHeight sortedSpans [] (r_top pageRect)"

text \<open>The loop of \<open>_findChangePoints\<close> from the second density point on.\<close>

fun changeLoop ::
  "real \<Rightarrow> DensityPoint \<Rightarrow> LayoutSegment list \<Rightarrow> DensityPoint list \<Rightarrow> LayoutSegment list" where
  "changeLoop avgLineHeight lastPoint segments [] = segments"
| "changeLoop avgLineHeight lastPoint segments (currPoint # rest) =
     (if d_cols currPoint \<noteq> d_cols lastPoint
         \<or> \<bar>d_left currPoint - d_left lastPoint\<bar> > shiftMultiplier * avgLineHeight
         \<or> \<bar>d_right currPoint - d_right lastPoint\<bar> > shiftMultiplier * avgLineHeight
      then changeLoop avgLineHeight currPoint
             (segments @ [\<lparr>seg_top = d_y lastPoint, seg_bottom = d_y currPoint,
                           seg_left = d_left currPoint, seg_right = d_right currPoint,
                           seg_columns = d_cols currPoint\<rparr>]) rest
      else changeLoop avgLineHeight lastPoint segments rest)"

definition findChangePoints ::
  "DensityPoint list \<Rightarrow> RectLike \<Rightarrow> real \<Rightarrow> LayoutSegment list" where
  "findChangePoints densityPoints pageRect avgLineHeight =
     (case densityPoints of
        [] \<Rightarrow> []
      | p0 # rest \<Rightarrow>
          (let segments =
                 changeLoop avgLineHeight p0
                   [\<lparr>seg_top = r_top pageRect, seg_bottom = d_y p0, seg_left = d_left p0,
                     seg_right = d_right p0, seg_columns = d_cols p0\<rparr>] rest
           in butlast segments @ [(last segments)\<lparr>seg_bottom := r_bottom pageRect\<rparr>]))"

fun consolidateLoop ::
  "real \<Rightarrow> LayoutSegment \<Rightarrow> LayoutSegment list \<Rightarrow> LayoutSegment list \<Rightarrow> LayoutSegment list" where
  "consolidateLoop avgLineHeight currentSegment consolidated [] =
     consolidated @ [currentSegment]"
| "consolidateLoop avgLineHeight currentSegment consolidated (nextSegment # rest) =
     (if seg_bottom currentSegment - seg_top currentSegment
           < minSegmentHeightMultiplier * avgLineHeight
         \<or> seg_columns nextSegment = seg_columns currentSegment
      then consolidateLoop avgLineHeight
             (currentSegment\<lparr>seg_bottom := seg_bottom nextSegment,
                              seg_right := max (seg_right currentSegment) (seg_right nextSegment),
                              seg_left := min (seg_left currentSegment) (seg_left nextSegment)\<rparr>)
             consolidated rest
      else consolidateLoop avgLineHeight nextSegment (consolidated @ [currentSegment]) rest)"

definition consolidateSegments :: "LayoutSegment list \<Rightarrow> real \<Rightarrow> LayoutSegment list" where
  "consolidateSegments segments avgLineHeight =
     (case segments of
        [] \<Rightarrow> []
      | s0 # rest \<Rightarrow>
          filter (\<lambda>s. seg_bottom s - seg_top s > minSegmentHeightMultiplier * avgLineHeight)
            (consolidateLoop avgLineHeight s0 [] rest))"

definition fullPageSegment :: "RectLike \<Rightarrow> LayoutSegment" where
  "fullPageSegment pageRect =
     \<lparr>seg_top = r_top pageRect, seg_bottom = r_bottom pageRect, seg_left = r_left pageRect,
      seg_right = r_right pageRect, seg_columns = 1\<rparr>"

text \<open>
  \<open>segmentVerticalLayouts\<close>.  The page rectangle may be missing (\<open>None\<close>); then
  \<open>pageRect?.top || 0\<close> is \<open>0\<close>, and so for the other edges.
\<close>

definition segmentVerticalLayouts ::
  "RectLike list \<Rightarrow> RectLike option \<Rightarrow> real \<Rightarrow> LayoutSegment list" where
  "segmentVerticalLayouts spanRects pageRect avgLineHeight =
     (case pageRect of
        None \<Rightarrow>
          [\<lparr>seg_top = 0, seg_bottom = 0, seg_left = 0, seg_right = 0, seg_columns = 1\<rparr>]
      | Some pr \<Rightarrow>
          if spanRects = [] then [fullPageSegment pr]
          else
            (let sortedSpans = sortBy (\<lambda>a b. r_top a - r_top b) spanRects;
                 densityPoints = sampleDensityProfile sortedSpans pr avgLineHeight
             in if densityPoints = [] then [fullPageSegment pr]
                else
                  (let changePoints = findChangePoints densityPoints pr avgLineHeight;
                       consolidated = consolidateSegments changePoints avgLineHeight;
                       finalSegments =
                         map (\<lambda>segment.
                                let buffer = min (avgLineHeight * 0.5)
                                               ((seg_bottom segment - seg_top segment) * 0.1)
                                in segment\<lparr>seg_top := max (r_top pr) (seg_top segment - buffer),
                                           seg_bottom :=
                                             min (r_bottom pr) (seg_bottom segment + buffer)\<rparr>)
                           consolidated
                   in if finalSegments = [] then [fullPageSegment pr] else finalSegments)))"

section \<open>Example fragments\<close>

text \<open>
  A fragment of plain text: the rectangle, the font size and the text; family, weight,
  style and colour are the same for all of them.
\<close>

definition plainStyle :: "real \<Rightarrow> NormalizedStyle" where
  "plainStyle fs =
     \<lparr>fontFamily = ''serif'', fontSize = fs, fontWeight = 400, fontStyle = ''normal'',
      colorRGB = (0, 0, 0), styleIsMathElement = None, direction = None\<rparr>"

definition plainSpan :: "real \<Rightarrow> real \<Rightarrow> real \<Rightarrow> real \<Rightarrow> real \<Rightarrow> nat list \<Rightarrow> SpanInfo" where
  "plainSpan l t r b fs txt =
     \<lparr>rect = mkRect l t r b, style = plainStyle fs, isMathElement = False, spanText = txt\<rparr>"

text \<open>Two lines of a column, one under the other, 2 units apart.\<close>

definition twoLines :: "nat \<Rightarrow> SpanInfo" where
  "twoLines s = (if s = 0 then plainSpan 0 0 100 10 10 [97] else plainSpan 0 12 100 22 10 [98])"

text \<open>The paragraph infos of the two lines, each a paragraph of its own.\<close>

definition twoLinesInfos :: "nat PInfo list" where
  "twoLinesInfos =
     [\<lparr>p_spans = [0], p_bbox = mkRect 0 0 100 10, p_style = plainStyle 10, p_isMath = False\<rparr>,
      \<lparr>p_spans = [1], p_bbox = mkRect 0 12 100 22, p_style = plainStyle 10, p_isMath = False\<rparr>]"

text \<open>
  A line that ends in a hyphen (text \<open>w-\<close>) and, 490 units below it, its continuation,
  5 units to the right; in \<open>hyphenOtherFont\<close> the continuation is set in another
  font family.
\<close>

definition hyphenPage :: "nat \<Rightarrow> SpanInfo" where
  "hyphenPage s =
     (if s = 0 then plainSpan 0 0 100 10 10 [119, 45] else plainSpan 5 500 100 510 10 [120])"

definition hyphenOtherFont :: "nat \<Rightarrow> SpanInfo" where
  "hyphenOtherFont s =
     (if s = 0 then plainSpan 0 0 100 10 10 [119, 45]
      else (plainSpan 5 500 100 510 10 [120])
             \<lparr>style := (plainStyle 10)\<lparr>fontFamily := ''sans''\<rparr>\<rparr>)"

section \<open>The strips and bands of a run\<close>

text \<open>
  The horizontal bands that \<open>detectLayout\<close> builds (\<open>layoutBands\<close>): the same
  computation as in \<open>detectLayout\<close>, up to the bands.
\<close>

definition detectLayoutBands ::
  "LayoutSettings \<Rightarrow> (RectLike list \<Rightarrow> RectLike \<Rightarrow> real \<Rightarrow> real list) \<Rightarrow> ('s \<Rightarrow> SpanInfo)
     \<Rightarrow> 's list \<Rightarrow> RectLike \<Rightarrow> HorizontalBand list" where
  "detectLayoutBands cfg gridDetector infos spans pageRect =
     (let keys = snapshotKeys spans;
          rects = map (\<lambda>s. rect (infos s)) keys;
          paragraphs = mergeIntoParagraphsFromInfos cfg infos keys;
          lineHeight = estimateLineHeightFromInfos cfg paragraphs infos keys pageRect
      in layoutBandsOf cfg pageRect lineHeight
           (fst (detectGapsFromRects rects pageRect)) (snd (detectGapsFromRects rects pageRect))
           (gridDetector rects pageRect lineHeight))"



definition gutterCluster :: Cluster where
  "gutterCluster =
     \<lparr>c_centers = [50, 50, 50], c_widths = [2, 2, 100], c_lefts = [49, 49, 0],
      c_rights = [51, 51, 100], c_y1s = [0, 6, 12], c_y2s = [6, 12, 18]\<rparr>"


text \<open>
  A page of 100 by 30 units: a header over the full width and, below it, two lines of
  two columns with a gutter of 4 units; all in the same style with font size 10.
  \<open>headerParagraphs\<close> is the initial grouping of the page, \<open>headerCluster\<close> the cluster
  of its gutter and \<open>headerStrip\<close> the strip that the gap detector returns for it.
\<close>

definition headerPage :: "nat \<Rightarrow> SpanInfo" where
  "headerPage s =
     (if s = 0 then plainSpan 0 0 100 8 10 [104]
      else if s = 1 then plainSpan 0 12 48 20 10 [97]
      else if s = 2 then plainSpan 52 12 100 20 10 [98]
      else if s = 3 then plainSpan 0 22 48 30 10 [99]
      else plainSpan 52 22 100 30 10 [100])"

definition headerSpans :: "nat list" where
  "headerSpans = [0, 1, 2, 3, 4]"

definition headerRect :: RectLike where
  "headerRect = mkRect 0 0 100 30"

definition headerRects :: "RectLike list" where
  "headerRects =
     [mkRect 0 0 100 8, mkRect 0 12 48 20, mkRect 52 12 100 20, mkRect 0 22 48 30,
      mkRect 52 22 100 30]"

definition headerParagraphs :: "nat list list" where
  "headerParagraphs = [[0, 1, 2], [3, 4]]"

definition headerCluster :: Cluster where
  "headerCluster =
     \<lparr>c_centers = [50, 50, 50], c_widths = [4, 4, 4], c_lefts = [48, 48, 48],
      c_rights = [52, 52, 52], c_y1s = [12, 18, 24], c_y2s = [18, 24, 30]\<rparr>"

definition headerStrip :: VerticalStrip where
  "headerStrip =
     \<lparr>vs_left = 48, vs_right = 52, vs_top = 12, vs_bottom = 30, vs_confidence = 4 / 5\<rparr>"

text \<open>A grid detector that finds no line.\<close>

definition noGrid :: "RectLike list \<Rightarrow> RectLike \<Rightarrow> real \<Rightarrow> real list" where
  "noGrid rects page lineHeight = []"

text \<open>The default settings with another confidence for the inferred bands.\<close>

definition withInferred :: "real \<Rightarrow> LayoutSettings" where
  "withInferred c = defaultLayoutSettings\<lparr>inferredBandConfidence := c\<rparr>"

text \<open>
  A page of 190 by 34 units with three lines in the same style (font size 10): the
  first and the third start at the left edge, the second is shifted by 90 units and
  overlaps the first by 10 units and the third by 60 units.
\<close>

datatype line = FirstLine | ShiftedLine | ThirdLine

fun overlapPage :: "line \<Rightarrow> SpanInfo" where
  "overlapPage FirstLine = plainSpan 0 0 100 10 10 [97]"
| "overlapPage ShiftedLine = plainSpan 90 12 190 22 10 [98]"
| "overlapPage ThirdLine = plainSpan 0 24 150 34 10 [99]"

definition overlapSpans :: "line list" where
  "overlapSpans = [FirstLine, ShiftedLine, ThirdLine]"

definition overlapRect :: RectLike where
  "overlapRect = mkRect 0 0 190 34"

definition overlapRects :: "RectLike list" where
  "overlapRects = [mkRect 0 0 100 10, mkRect 90 12 190 22, mkRect 0 24 150 34]"

definition overlapParagraphs :: "line list list" where
  "overlapParagraphs = [[FirstLine], [ShiftedLine], [ThirdLine]]"

section \<open>Properties\<close>

subsection \<open>Evaluation of the definitions on concrete fragments\<close>

lemma default_fields:
  "lineHeightMultiplier defaultLayoutSettings = 1.6"
  "minStripConfidence defaultLayoutSettings = 0.7"
  "minStripWidthPx defaultLayoutSettings = 4"
  "maxIterMerges defaultLayoutSettings = 10"
  "minBandConfidence defaultLayoutSettings = 0.6"
  "bandTopBottomThresholdMultiplier defaultLayoutSettings = 0.75"
  "inferredBandConfidence defaultLayoutSettings = 0.8"
  "bandMergeGapPx defaultLayoutSettings = 2"
  "bandMergeGapLineHeightMultiplier defaultLayoutSettings = 0.2"
  "maxGapFractionOfPageHeight defaultLayoutSettings = 0.5"
  "minGapsForTrim defaultLayoutSettings = 5"
  "trimPercent defaultLayoutSettings = 0.15"
  "lineHeightFromAvgMultiplier defaultLayoutSettings = 1.25"
  "floorMultiplier defaultLayoutSettings = 0.8"
  "minOverlapFracForBand defaultLayoutSettings = 0.4"
  "minRegionWidth defaultLayoutSettings = 1"
  "pmForceLinearMerge defaultLayoutSettings = False"
  "pmMinStripConfidenceSplit defaultLayoutSettings = 0.7"
  "pmMinStripWidthPx defaultLayoutSettings = 6"
  "pmMinStripOverlapFrac defaultLayoutSettings = 0.6"
  "pmInitialMergeBaselineTolNonMath defaultLayoutSettings = 0.45"
  "pmInitialMergeBaselineTolMath defaultLayoutSettings = 0.75"
  "pmInitialMergeKernTolNonMath defaultLayoutSettings = 0.55"
  "pmInitialMergeKernTolMath defaultLayoutSettings = 0.9"
  "pmHyphenContinuationTol defaultLayoutSettings = 1.8"
  "pmInitialMergeAlignTolNonMath defaultLayoutSettings = 2.0"
  "pmInitialMergeAlignTolMath defaultLayoutSettings = 2.0"
  "pmInitialMergeVerticalGapMultiplier defaultLayoutSettings = 1.3"
  "pmInitialMergeVerticalGapMaxMultiplier defaultLayoutSettings = 2.2"
  "pmStackedMergeAlignTol defaultLayoutSettings = 2.0"
  "pmStackedMergeOverlapFrac defaultLayoutSettings = 0.25"
  "pmStackedMergeVerticalGapMultiplier defaultLayoutSettings = 1.35"
  "pmStackedMergeVerticalGapMaxMultiplier defaultLayoutSettings = 2.0"
  "pmGeneralMergeAlignTol defaultLayoutSettings = 2.0"
  "pmGeneralMergeOverlapFrac defaultLayoutSettings = 0.25"
  "pmGeneralMergeVerticalGapMultiplier defaultLayoutSettings = 1.35"
  "pmGeneralMergeVerticalGapMaxMultiplier defaultLayoutSettings = 2.0"
  "pmNestedMergeOverlapFrac defaultLayoutSettings = 0.7"
  "pmStitchBaselineTolNonMath defaultLayoutSettings = 0.45"
  "pmStitchBaselineTolMath defaultLayoutSettings = 0.75"
  "pmStitchKernTolNonMath defaultLayoutSettings = 0.55"
  "pmStitchKernTolMath defaultLayoutSettings = 0.9"
  "pmInlineSpanMaxWeightDiff defaultLayoutSettings = 300"
  "pmInlineSpanAllowMixedStyle defaultLayoutSettings = True"
  "pmSameColumnCoverageRatio defaultLayoutSettings = 0.65"
  "pmMathMergeBaselineTol defaultLayoutSettings = 2.0"
  "pmMathMergeHorizTol defaultLayoutSettings = 1.5"
  "pmMathMergeCenterTol defaultLayoutSettings = 2.5"
  "pmSplitLineHeightTol defaultLayoutSettings = 0.7"
  "pmSplitBoundaryDedupTol defaultLayoutSettings = 0.3"
  "pmSplitInterWordGapTol defaultLayoutSettings = 1.2"
  "pmSplitColumnGapTol defaultLayoutSettings = 2.5"
  by (simp_all add: defaultLayoutSettings_def)

lemma mkRect_sel [simp]:
  "r_left (mkRect l t r b) = l" "r_top (mkRect l t r b) = t" "r_right (mkRect l t r b) = r"
  "r_bottom (mkRect l t r b) = b" "r_width (mkRect l t r b) = r - l"
  "r_height (mkRect l t r b) = b - t"
  by (simp_all add: mkRect_def)

lemmas eval_defs =
  stylesMatchStyle_def stylesMatch_def plainStyle_def plainSpan_def default_fields
  sameColumnByStrips_def hasHorizontalBandBetween_def Let_def
  getNumericFontWeight_def colorDistance_def hypot3_def getParaBbox_def
  sortSpansTopLeft_def sortBy_def cmpTopLeft_def

text \<open>Evaluation of the rounding to a double.\<close>

lemma expUp_numeral:
  "expUp (numeral k) a = (if a < 2 then 0 else expUp (pred_numeral k) (a / 2) + 1)"
  by (simp add: numeral_eq_Suc)

lemma expDown_numeral:
  "expDown (numeral k) a = (if a \<ge> 1 then 0 else expDown (pred_numeral k) (a * 2) - 1)"
  by (simp add: numeral_eq_Suc)

lemmas fl64_eval = fl64_def exponent64_def expUp_numeral expDown_numeral roundHalfEven_def
  Let_def

lemma colorDistance_sym: "colorDistance a b = colorDistance b a"
proof -
  have sq: "\<And>x y :: real. (x - y) * (x - y) = (y - x) * (y - x)"
    by (simp add: algebra_simps)
  show ?thesis
    unfolding colorDistance_def hypot3_def
    by (cases "colorRGB a"; cases "colorRGB b") (simp add: sq)
qed

text \<open>
  C10.  The style-match predicate is symmetric in its two style arguments, for every
  configuration (force-linear on or off) and every value of the math-awareness flag.
\<close>

theorem stylesMatchStyle_symmetric:
  "stylesMatchStyle cfg a b mathAware = stylesMatchStyle cfg b a mathAware"
proof -
  have w: "\<bar>getNumericFontWeight (fontWeight a) - getNumericFontWeight (fontWeight b)\<bar>
         = \<bar>getNumericFontWeight (fontWeight b) - getNumericFontWeight (fontWeight a)\<bar>"
    by (rule abs_minus_commute)
  have s: "\<bar>fontSize a - fontSize b\<bar> = \<bar>fontSize b - fontSize a\<bar>"
    by (rule abs_minus_commute)
  have c: "colorDistance a b = colorDistance b a"
    by (rule colorDistance_sym)
  show ?thesis
    unfolding stylesMatchStyle_def w s c by auto
qed

subsection \<open>Sorting keeps the elements\<close>

lemma mset_insortBy [simp]: "mset (insortBy cmp x xs) = add_mset x (mset xs)"
  by (induction xs) auto

lemma mset_sortBy [simp]: "mset (sortBy cmp xs) = mset xs"
  by (induction xs) (auto simp: sortBy_def)

lemma set_sortBy [simp]: "set (sortBy cmp xs) = set xs"
  by (metis mset_sortBy set_mset_mset)

lemma sortBy_Nil [simp]: "sortBy cmp [] = []"
  by (simp add: sortBy_def)


lemma sortBy_eq_Nil [simp]: "(sortBy cmp xs = []) = (xs = [])"
  by (metis length_0_conv length_sortBy)

lemma mset_sortSpansTopLeft [simp]: "mset (sortSpansTopLeft infos xs) = mset xs"
  by (simp add: sortSpansTopLeft_def)

lemma set_sortSpansTopLeft [simp]: "set (sortSpansTopLeft infos xs) = set xs"
  by (simp add: sortSpansTopLeft_def)

lemma sortSpansTopLeft_eq_Nil [simp]: "(sortSpansTopLeft infos xs = []) = (xs = [])"
  by (simp add: sortSpansTopLeft_def)

subsection \<open>Region detector: degenerate input\<close>

text \<open>
  C9.  With an empty fragment list, or with the page rectangle missing,
  \<open>segmentVerticalLayouts\<close> returns exactly one segment with column count 1; it spans
  the page (the zero rectangle when there is no page).  The function has no failing
  branch on this path, so the result is a value.
\<close>

theorem segmentVerticalLayouts_degenerate:
  assumes "spanRects = [] \<or> pageRect = None"
  shows "segmentVerticalLayouts spanRects pageRect avgLineHeight =
           [\<lparr>seg_top = (case pageRect of None \<Rightarrow> 0 | Some pr \<Rightarrow> r_top pr),
             seg_bottom = (case pageRect of None \<Rightarrow> 0 | Some pr \<Rightarrow> r_bottom pr),
             seg_left = (case pageRect of None \<Rightarrow> 0 | Some pr \<Rightarrow> r_left pr),
             seg_right = (case pageRect of None \<Rightarrow> 0 | Some pr \<Rightarrow> r_right pr),
             seg_columns = 1\<rparr>]"
  using assms
  by (cases pageRect) (auto simp: segmentVerticalLayouts_def fullPageSegment_def)

theorem segmentVerticalLayouts_degenerate_witness:
  "segmentVerticalLayouts [] (Some (mkRect 0 0 600 800)) 15 =
     [\<lparr>seg_top = 0, seg_bottom = 800, seg_left = 0, seg_right = 600, seg_columns = 1\<rparr>]"
  using segmentVerticalLayouts_degenerate [of "[]" "Some (mkRect 0 0 600 800)" 15]
  by (simp add: mkRect_def)

subsection \<open>The final stacked pass ends\<close>

lemma stackedLoop_fixed_point:
  "\<exists>n\<le>length ps.
      \<not> snd (stackedPass cfg infos lineHeight strips bands
               (stackedIter cfg infos lineHeight strips bands n ps))
      \<and> stackedLoop cfg infos lineHeight strips bands ps
          = map p_spans (fst (stackedPass cfg infos lineHeight strips bands
                                (stackedIter cfg infos lineHeight strips bands n ps)))"
proof (induction cfg infos lineHeight strips bands ps rule: stackedLoop.induct)
  case (1 cfg infos lineHeight strips bands ps)
  obtain out ch where p: "stackedPass cfg infos lineHeight strips bands ps = (out, ch)"
    by (cases "stackedPass cfg infos lineHeight strips bands ps") auto
  show ?case
  proof (cases ch)
    case False
    with p have "\<not> snd (stackedPass cfg infos lineHeight strips bands
                         (stackedIter cfg infos lineHeight strips bands 0 ps))"
      and "stackedLoop cfg infos lineHeight strips bands ps
             = map p_spans (fst (stackedPass cfg infos lineHeight strips bands
                                   (stackedIter cfg infos lineHeight strips bands 0 ps)))"
      by (simp_all add: stackedLoop.simps [of cfg infos lineHeight strips bands ps])
    then show ?thesis by blast
  next
    case True
    from "1.IH" [OF p [symmetric] True]
    obtain n where n: "n \<le> length (sortPInfos out)"
      and fx: "\<not> snd (stackedPass cfg infos lineHeight strips bands
                        (stackedIter cfg infos lineHeight strips bands n (sortPInfos out)))"
      and eq: "stackedLoop cfg infos lineHeight strips bands (sortPInfos out)
                 = map p_spans (fst (stackedPass cfg infos lineHeight strips bands
                     (stackedIter cfg infos lineHeight strips bands n (sortPInfos out))))"
      by blast
    from stackedPass_length [OF p] True have "length out < length ps" by simp
    with n have le: "Suc n \<le> length ps" by (simp add: sortPInfos_def)
    have it: "stackedIter cfg infos lineHeight strips bands (Suc n) ps
                = stackedIter cfg infos lineHeight strips bands n (sortPInfos out)"
      using p by simp
    have lp: "stackedLoop cfg infos lineHeight strips bands ps
                = stackedLoop cfg infos lineHeight strips bands (sortPInfos out)"
      using p True by (simp add: stackedLoop.simps [of cfg infos lineHeight strips bands ps])
    from le fx eq it lp show ?thesis
      by (intro exI [of _ "Suc n"]) simp
  qed
qed

text \<open>
  C8.  The \<open>while\<close> loop of the final stacked pass ends for every list of paragraph
  infos: a pass that merges returns strictly fewer paragraphs than it was given, and
  after at most as many passes as there are paragraphs a pass merges nothing; the loop
  returns the spans of that pass.
\<close>

theorem stackedLoop_terminates:
  "(snd (stackedPass cfg infos lineHeight strips bands ps)
      \<longrightarrow> length (fst (stackedPass cfg infos lineHeight strips bands ps)) < length ps)
   \<and> (\<exists>n\<le>length ps.
         \<not> snd (stackedPass cfg infos lineHeight strips bands
                  (stackedIter cfg infos lineHeight strips bands n ps))
         \<and> stackedLoop cfg infos lineHeight strips bands ps
             = map p_spans (fst (stackedPass cfg infos lineHeight strips bands
                                   (stackedIter cfg infos lineHeight strips bands n ps))))"
proof
  show "snd (stackedPass cfg infos lineHeight strips bands ps)
          \<longrightarrow> length (fst (stackedPass cfg infos lineHeight strips bands ps)) < length ps"
    using stackedPass_length [of cfg infos lineHeight strips bands ps
            "fst (stackedPass cfg infos lineHeight strips bands ps)"
            "snd (stackedPass cfg infos lineHeight strips bands ps)"]
    by simp
next
  show "\<exists>n\<le>length ps.
          \<not> snd (stackedPass cfg infos lineHeight strips bands
                   (stackedIter cfg infos lineHeight strips bands n ps))
          \<and> stackedLoop cfg infos lineHeight strips bands ps
              = map p_spans (fst (stackedPass cfg infos lineHeight strips bands
                                    (stackedIter cfg infos lineHeight strips bands n ps)))"
    by (rule stackedLoop_fixed_point)
qed

lemma twoLines_pass1:
  "stackedPass defaultLayoutSettings twoLines (64 / 5) [] [] twoLinesInfos =
     ([\<lparr>p_spans = [0, 1], p_bbox = mkRect 0 0 100 22, p_style = plainStyle 10,
        p_isMath = False\<rparr>], True)"
  by (simp add: twoLinesInfos_def stackedMergeTest_def combinePInfo_def twoLines_def eval_defs)

lemma twoLines_pass2:
  "stackedPass defaultLayoutSettings twoLines (64 / 5) [] []
     [\<lparr>p_spans = [0, 1], p_bbox = mkRect 0 0 100 22, p_style = plainStyle 10,
       p_isMath = False\<rparr>] =
     ([\<lparr>p_spans = [0, 1], p_bbox = mkRect 0 0 100 22, p_style = plainStyle 10,
        p_isMath = False\<rparr>], False)"
  by simp

lemma twoLines_loop:
  "stackedLoop defaultLayoutSettings twoLines (64 / 5) [] [] twoLinesInfos = [[0, 1]]"
  by (simp add: stackedLoop.simps twoLines_pass1 twoLines_pass2 sortPInfos_def sortBy_def)

theorem stackedLoop_terminates_witness:
  "snd (stackedPass defaultLayoutSettings twoLines (64 / 5) [] [] twoLinesInfos)
   \<and> length (fst (stackedPass defaultLayoutSettings twoLines (64 / 5) [] [] twoLinesInfos))
       < length twoLinesInfos
   \<and> stackedLoop defaultLayoutSettings twoLines (64 / 5) [] [] twoLinesInfos = [[0, 1]]"
proof -
  have merged: "snd (stackedPass defaultLayoutSettings twoLines (64 / 5) [] [] twoLinesInfos)"
    by (simp add: twoLines_pass1)
  from stackedLoop_terminates
         [of defaultLayoutSettings twoLines "64 / 5" "[]" "[]" twoLinesInfos] merged
  have "length (fst (stackedPass defaultLayoutSettings twoLines (64 / 5) [] [] twoLinesInfos))
          < length twoLinesInfos"
    by blast
  with merged twoLines_loop show ?thesis
    by blast
qed

subsection \<open>Initial grouping: hyphen continuation\<close>

lemma groupSpans_keeps_paragraphs:
  "set paragraphs \<subseteq> set (groupSpans cfg infos current paragraphs xs)"
proof (induction xs arbitrary: current paragraphs)
  case Nil
  then show ?case by auto
next
  case (Cons x xs)
  have "set paragraphs \<subseteq> set (groupSpans cfg infos [x] paragraphs xs)"
    by (rule Cons.IH)
  moreover have "set paragraphs \<subseteq> set (groupSpans cfg infos (current @ [x]) paragraphs xs)"
    by (rule Cons.IH)
  moreover have "set paragraphs \<subseteq> set (groupSpans cfg infos [x] (paragraphs @ [current]) xs)"
    using Cons.IH [where current = "[x]" and paragraphs = "paragraphs @ [current]"] by auto
  ultimately show ?case by simp
qed

lemma groupSpans_keeps_current:
  "current \<noteq> []
     \<Longrightarrow> \<exists>p\<in>set (groupSpans cfg infos current paragraphs xs). set current \<subseteq> set p"
proof (induction xs arbitrary: current paragraphs)
  case Nil
  then show ?case by auto
next
  case (Cons x xs)
  show ?case
  proof (cases "initialMergeTest cfg (infos (last current)) (infos x)")
    case True
    from Cons.IH [where current = "current @ [x]" and paragraphs = paragraphs]
    obtain p where "p \<in> set (groupSpans cfg infos (current @ [x]) paragraphs xs)"
      and "set (current @ [x]) \<subseteq> set p"
      by auto
    with True Cons.prems show ?thesis by auto
  next
    case False
    have "current \<in> set (paragraphs @ [current])" by simp
    with groupSpans_keeps_paragraphs [where paragraphs = "paragraphs @ [current]" and cfg = cfg
           and infos = infos and current = "[x]" and xs = xs]
    have "current \<in> set (groupSpans cfg infos [x] (paragraphs @ [current]) xs)"
      by blast
    with False Cons.prems show ?thesis by auto
  qed
qed

lemma groupSpans_adjacent:
  "initialMergeTest cfg (infos a) (infos b)
     \<Longrightarrow> \<exists>p\<in>set (groupSpans cfg infos current paragraphs (pre @ a # b # post)).
           a \<in> set p \<and> b \<in> set p"
proof (induction pre arbitrary: current paragraphs)
  case Nil
  have step: "\<exists>p\<in>set (groupSpans cfg infos c ps (b # post)). a \<in> set p \<and> b \<in> set p"
    if "c \<noteq> []" "last c = a" for c ps
  proof -
    from groupSpans_keeps_current [where current = "c @ [b]" and cfg = cfg and infos = infos
           and paragraphs = ps and xs = post]
    obtain p where "p \<in> set (groupSpans cfg infos (c @ [b]) ps post)"
      and sub: "set (c @ [b]) \<subseteq> set p"
      by auto
    moreover from that have "a \<in> set c"
      using last_in_set by blast
    ultimately show ?thesis
      using that Nil by auto
  qed
  show ?case
  proof (cases "current = []")
    case True
    with step [of "[a]" paragraphs] show ?thesis by simp
  next
    case False
    show ?thesis
    proof (cases "initialMergeTest cfg (infos (last current)) (infos a)")
      case True
      with False step [of "current @ [a]" paragraphs] show ?thesis by simp
    next
      case f: False
      with False step [of "[a]" "paragraphs @ [current]"] show ?thesis by simp
    qed
  qed
next
  case (Cons x pre)
  from Cons.IH [OF Cons.prems] show ?case by simp
qed

text \<open>
  C4, as the code has it: in the initial grouping, when the previous fragment (in
  (top, left) order) ends in a hyphen or a soft hyphen, the next fragment lies below it
  and is left-aligned within its font size times the hyphen tolerance (1.8 by default),
  and the two fragments match in style, both are in the same paragraph, whatever the
  vertical gap between them.  The alignment is the comparison that the program makes:
  the distance of the left edges and the product of font size and tolerance are each
  rounded to a double, and the distance must be the smaller one.
\<close>

theorem hyphen_continuation_same_paragraph:
  assumes "sortSpansTopLeft infos keys = pre @ prv # cur # post"
    and "stylesMatch cfg (infos cur) (infos prv) True"
    and "endsWithHyphenRe (jsTrim (spanText (infos prv)))"
    and "r_top (rect (infos cur)) > r_top (rect (infos prv))"
    and "jsLess (jsAbs (round64 (r_left (rect (infos cur)) - r_left (rect (infos prv)))))
           (round64 (fontSize (style (infos cur)) * pmHyphenContinuationTol cfg))"
  shows "\<exists>p\<in>set (mergeIntoParagraphsFromInfos cfg infos keys). prv \<in> set p \<and> cur \<in> set p"
proof -
  from assms(2-5) have "initialMergeTest cfg (infos prv) (infos cur)"
    by (simp add: initialMergeTest_def hyphenContinuation_def Let_def)
  from groupSpans_adjacent [where cfg = cfg and infos = infos and a = prv and b = cur
         and current = "[]" and paragraphs = "[]" and pre = pre and post = post, OF this] assms(1)
  show ?thesis
    by (simp add: mergeIntoParagraphsFromInfos_def)
qed

lemma hyphenPage_sorted: "sortSpansTopLeft hyphenPage [0, 1] = [] @ 0 # 1 # []"
  by (simp add: hyphenPage_def eval_defs)

lemma hyphenPage_ends: "endsWithHyphenRe (jsTrim (spanText (hyphenPage 0)))"
  by (simp add: hyphenPage_def plainSpan_def jsTrim_def endsWithHyphenRe_def isJsWhiteSpace_def)

lemma hyphenPage_distance:
  "round64 (r_left (rect (hyphenPage 1)) - r_left (rect (hyphenPage 0))) = Fin 5"
  by (simp add: hyphenPage_def plainSpan_def round64_def fl64_eval)

lemma hyphenPage_bound:
  "round64 (fontSize (style (hyphenPage 1)) * pmHyphenContinuationTol defaultLayoutSettings)
     = Fin 18"
  by (simp add: hyphenPage_def plainSpan_def plainStyle_def default_fields round64_def fl64_eval)

theorem hyphen_continuation_same_paragraph_witness:
  "\<exists>p\<in>set (mergeIntoParagraphsFromInfos defaultLayoutSettings hyphenPage [0, 1]).
      0 \<in> set p \<and> 1 \<in> set p"
proof -
  have "stylesMatch defaultLayoutSettings (hyphenPage 1) (hyphenPage 0) True"
    by (simp add: hyphenPage_def eval_defs)
  moreover have "r_top (rect (hyphenPage 1)) > r_top (rect (hyphenPage 0))"
    by (simp add: hyphenPage_def eval_defs)
  moreover have
    "jsLess (jsAbs (round64 (r_left (rect (hyphenPage 1)) - r_left (rect (hyphenPage 0)))))
       (round64 (fontSize (style (hyphenPage 1))
                 * pmHyphenContinuationTol defaultLayoutSettings))"
    unfolding hyphenPage_distance hyphenPage_bound by simp
  ultimately show ?thesis
    using hyphen_continuation_same_paragraph [OF hyphenPage_sorted _ hyphenPage_ends]
    by blast
qed

text \<open>
  At the bound itself the rounding decides.  With font size 9 and the tolerance 1.8
  (the double \<open>8106479329266893 / 2 ^ 52\<close>) the product is the double 16.2, and a
  continuation that is indented by the double 16.2 is not within the bound, although
  the exact product is larger than it.
\<close>

lemma hyphen_bound_rounded:
  "round64 (9 * (8106479329266893 / 4503599627370496))
     = Fin (4559894622712627 / 281474976710656)
   \<and> round64 (4559894622712627 / 281474976710656 - 0)
     = Fin (4559894622712627 / 281474976710656)
   \<and> (4559894622712627 / 281474976710656 :: real)
       < 9 * (8106479329266893 / 4503599627370496)
   \<and> \<not> jsLess (jsAbs (round64 (4559894622712627 / 281474976710656 - 0)))
           (round64 (9 * (8106479329266893 / 4503599627370496)))"
  by (simp add: round64_def fl64_eval)

text \<open>
  The claim without the style condition fails: the continuation in another font family
  opens a paragraph of its own.
\<close>

theorem hyphen_continuation_counterexample:
  "endsWithHyphenRe (jsTrim (spanText (hyphenOtherFont 0)))
   \<and> r_top (rect (hyphenOtherFont 1)) > r_top (rect (hyphenOtherFont 0))
   \<and> \<bar>r_left (rect (hyphenOtherFont 1)) - r_left (rect (hyphenOtherFont 0))\<bar>
       < fontSize (style (hyphenOtherFont 1)) * 1.8
   \<and> hyphenContinuation defaultLayoutSettings (hyphenOtherFont 0) (hyphenOtherFont 1)
   \<and> sortSpansTopLeft hyphenOtherFont [0, 1] = [0, 1]
   \<and> mergeIntoParagraphsFromInfos defaultLayoutSettings hyphenOtherFont [0, 1] = [[0], [1]]"
proof -
  have "round64 (r_left (rect (hyphenOtherFont 1)) - r_left (rect (hyphenOtherFont 0))) = Fin 5"
    by (simp add: hyphenOtherFont_def plainSpan_def round64_def fl64_eval)
  moreover have
    "round64 (fontSize (style (hyphenOtherFont 1))
              * pmHyphenContinuationTol defaultLayoutSettings) = Fin 18"
    by (simp add: hyphenOtherFont_def plainSpan_def plainStyle_def default_fields round64_def
          fl64_eval)
  moreover have "endsWithHyphenRe (jsTrim (spanText (hyphenOtherFont 0)))"
    "r_top (rect (hyphenOtherFont 1)) > r_top (rect (hyphenOtherFont 0))"
    by (simp_all add: hyphenOtherFont_def plainSpan_def jsTrim_def endsWithHyphenRe_def
          isJsWhiteSpace_def)
  ultimately have h:
    "hyphenContinuation defaultLayoutSettings (hyphenOtherFont 0) (hyphenOtherFont 1)"
    unfolding hyphenContinuation_def by simp
  have "endsWithHyphenRe (jsTrim (spanText (hyphenOtherFont 0)))
   \<and> r_top (rect (hyphenOtherFont 1)) > r_top (rect (hyphenOtherFont 0))
   \<and> \<bar>r_left (rect (hyphenOtherFont 1)) - r_left (rect (hyphenOtherFont 0))\<bar>
       < fontSize (style (hyphenOtherFont 1)) * 1.8
   \<and> sortSpansTopLeft hyphenOtherFont [0, 1] = [0, 1]
   \<and> mergeIntoParagraphsFromInfos defaultLayoutSettings hyphenOtherFont [0, 1] = [[0], [1]]"
    by (simp add: hyphenOtherFont_def mergeIntoParagraphsFromInfos_def initialMergeTest_def
          jsTrim_def endsWithHyphenRe_def isJsWhiteSpace_def eval_defs)
  with h show ?thesis by blast
qed
subsection \<open>Gap detector: strip confidence\<close>

lemma clamp01_range: "0 \<le> clamp01 x \<and> clamp01 x \<le> 1"
  by (simp add: clamp01_def)

lemma mergeStripsLoop_confidence:
  "s \<in> set (mergeStripsLoop cur ss)
     \<Longrightarrow> vs_confidence s \<in> vs_confidence ` insert cur (set ss)"
proof (induction ss arbitrary: cur)
  case Nil
  then show ?case by simp
next
  case (Cons x ss)
  let ?m = "\<lparr>vs_left = min (vs_left cur) (vs_left x), vs_right = max (vs_right cur) (vs_right x),
             vs_top = min (vs_top cur) (vs_top x), vs_bottom = max (vs_bottom cur) (vs_bottom x),
             vs_confidence = max (vs_confidence cur) (vs_confidence x)\<rparr>"
  show ?case
  proof (cases "\<bar>(vs_left cur + vs_right cur) / 2 - (vs_left x + vs_right x) / 2\<bar> \<le> 3
                \<and> min (vs_bottom cur) (vs_bottom x) - max (vs_top cur) (vs_top x) > 0")
    case True
    with Cons.prems have "s \<in> set (mergeStripsLoop ?m ss)" by simp
    from Cons.IH [OF this]
    have "vs_confidence s \<in> vs_confidence ` insert ?m (set ss)" .
    moreover have "vs_confidence ?m = vs_confidence cur \<or> vs_confidence ?m = vs_confidence x"
      by (simp add: max_def)
    ultimately show ?thesis by auto
  next
    case False
    with Cons.prems have "s = cur \<or> s \<in> set (mergeStripsLoop x ss)" by auto
    then show ?thesis
    proof
      assume "s = cur"
      then show ?thesis by simp
    next
      assume "s \<in> set (mergeStripsLoop x ss)"
      from Cons.IH [OF this] show ?thesis by auto
    qed
  qed
qed

lemma mergeSimilarStrips_confidence:
  assumes "s \<in> set (mergeSimilarStrips strips)"
  shows "vs_confidence s \<in> vs_confidence ` set strips"
proof -
  let ?sorted = "sortBy (\<lambda>a b. (vs_left a + vs_right a) / 2 - (vs_left b + vs_right b) / 2) strips"
  show ?thesis
  proof (cases ?sorted)
    case Nil
    with assms show ?thesis by (simp add: mergeSimilarStrips_def)
  next
    case (Cons x xs)
    with assms have "s \<in> set (mergeStripsLoop x xs)"
      by (simp add: mergeSimilarStrips_def)
    from mergeStripsLoop_confidence [OF this]
    have "vs_confidence s \<in> vs_confidence ` set ?sorted"
      using Cons by simp
    then show ?thesis by simp
  qed
qed

lemma clusterStrip_confidence:
  "s \<in> set (clusterStrip avgLine totalBands c) \<Longrightarrow> vs_confidence s = clusterConfidence totalBands c"
  by (auto simp: clusterStrip_def Let_def split: if_splits)

lemma detectStripsAndBands_confidence:
  assumes "s \<in> set (fst (detectStripsAndBands spanRects pageRect avgLine))"
  shows "\<exists>c\<in>set (clusterGaps avgLine (sweepBands spanRects pageRect avgLine (r_top pageRect))).
           vs_confidence s
             = clusterConfidence
                 (length (sweepBands spanRects pageRect avgLine (r_top pageRect))) c"
proof -
  let ?bands = "sweepBands spanRects pageRect avgLine (r_top pageRect)"
  let ?strips = "concat (map (clusterStrip avgLine (length ?bands)) (clusterGaps avgLine ?bands))"
  from assms have "s \<in> set (mergeSimilarStrips ?strips)"
    by (simp add: detectStripsAndBands_def stripsOfBands_def Let_def)
  from mergeSimilarStrips_confidence [OF this]
  obtain s' where "s' \<in> set ?strips" and eq: "vs_confidence s = vs_confidence s'"
    by auto
  then obtain c where c: "c \<in> set (clusterGaps avgLine ?bands)"
    and "s' \<in> set (clusterStrip avgLine (length ?bands) c)"
    by auto
  with clusterStrip_confidence eq
  have "vs_confidence s = clusterConfidence (length ?bands) c" by metis
  with c show ?thesis by blast
qed

subsection \<open>The strips and the clusters merged into them\<close>










subsection \<open>The gap detector on two fragments side by side\<close>

lemma bandStepOf_8: "bandStepOf 8 = 6" by (simp add: bandStepOf_def)




lemma stddev_widths: "stddev [2, 2, 100] = sqrt (9604 / 3)"
  by (simp add: stddev_def Let_def)

lemma sqrt_9604_3: "sqrt (9604 / 3) \<ge> 8"
  by (rule real_le_rsqrt) simp

lemma stddev_centers: "stddev [50, 50, 50] = 0"
  by (simp add: stddev_def Let_def)

lemma gutter_medians: "median [2, 2, 100] = 2" "median [50,50,50] = 50" "median [49, 49, 0] = 49" "median [51, 51, 100] = 51"
  by (simp_all add: median_def middleOf_def sortNumbers_def sortBy_def)

lemma gutter_confidence: "clusterConfidence 3 gutterCluster = 3 / 4"
  using sqrt_9604_3
  by (simp add: clusterConfidence_def gutterCluster_def stddev_widths stddev_centers gutter_medians approxUniqueBandCount_def jsRound_def clamp01_def Let_def)

lemma gutter_confidence_Suc: "clusterConfidence (Suc (Suc (Suc 0))) gutterCluster = 3 / 4"
  using gutter_confidence by (simp add: numeral_3_eq_3)







subsection \<open>Confidence bounds\<close>

lemma detectGapsFromRects_bands [simp]: "snd (detectGapsFromRects spanRects pageRect) = []"
  by (simp add: detectGapsFromRects_def detectStripsAndBands_def Let_def)

lemma detectGapsFromRects_strip_range:
  assumes "s \<in> set (fst (detectGapsFromRects spanRects pageRect))"
  shows "0 \<le> vs_confidence s \<and> vs_confidence s \<le> 1"
proof (cases "spanRects = []")
  case True
  with assms show ?thesis by (simp add: detectGapsFromRects_def)
next
  case False
  with assms
  have "s \<in> set (fst (detectStripsAndBands spanRects pageRect
                          (estimateAverageLineHeight spanRects)))"
    by (simp add: detectGapsFromRects_def)
  from detectStripsAndBands_confidence [OF this]
  obtain n c where "vs_confidence s = clusterConfidence n c" by blast
  then show ?thesis
    using clamp01_range by (simp add: clusterConfidence_def Let_def)
qed

lemma mergeBandsLoop_range:
  assumes "\<forall>b\<in>set merged. lo \<le> hb_confidence b \<and> hb_confidence b \<le> hi"
    and "\<forall>b\<in>set bs. lo \<le> hb_confidence b \<and> hb_confidence b \<le> hi"
  shows "\<forall>b\<in>set (mergeBandsLoop cfg lineHeight merged bs).
           lo \<le> hb_confidence b \<and> hb_confidence b \<le> hi"
  using assms
proof (induction bs arbitrary: merged)
  case Nil
  then show ?case by simp
next
  case (Cons b bs)
  show ?case
  proof (cases "merged = []")
    case True
    with Cons.IH [of "[b]"] Cons.prems show ?thesis by simp
  next
    case False
    let ?lst = "last merged"
    let ?new = "\<lparr>hb_y = hb_y ?lst,
                 hb_height = max (hb_y ?lst + hb_height ?lst) (hb_y b + hb_height b) - hb_y ?lst,
                 hb_confidence = max (hb_confidence ?lst) (hb_confidence b)\<rparr>"
    from False have lst: "?lst \<in> set merged" by simp
    have new: "lo \<le> hb_confidence ?new \<and> hb_confidence ?new \<le> hi"
      using lst Cons.prems by (auto simp: max_def)
    have bl: "\<forall>x\<in>set (butlast merged). lo \<le> hb_confidence x \<and> hb_confidence x \<le> hi"
      using Cons.prems(1) by (meson in_set_butlastD)
    have a: "\<forall>x\<in>set (mergeBandsLoop cfg lineHeight (butlast merged @ [?new]) bs).
               lo \<le> hb_confidence x \<and> hb_confidence x \<le> hi"
      using Cons.IH [of "butlast merged @ [?new]"] new bl Cons.prems(2) by auto
    have b: "\<forall>x\<in>set (mergeBandsLoop cfg lineHeight (merged @ [b]) bs).
               lo \<le> hb_confidence x \<and> hb_confidence x \<le> hi"
      using Cons.IH [of "merged @ [b]"] Cons.prems by auto
    from False a b show ?thesis by (simp add: Let_def)
  qed
qed

lemma layoutBandsOf_range:
  assumes "0 \<le> inferredBandConfidence cfg" and "inferredBandConfidence cfg \<le> 1"
    and "\<forall>b\<in>set gapBands. 0 \<le> hb_confidence b \<and> hb_confidence b \<le> 1"
    and "b \<in> set (layoutBandsOf cfg pageRect lineHeight strips gapBands horizontalLines)"
  shows "0 \<le> hb_confidence b \<and> hb_confidence b \<le> 1"
proof -
  let ?input = "filter (\<lambda>b. hb_confidence b \<ge> minBandConfidence cfg) gapBands
                @ gridBandsOf cfg lineHeight horizontalLines
                @ inferredBands cfg (keptStrips cfg strips) pageRect lineHeight"
  have "\<forall>x\<in>set ?input. 0 \<le> hb_confidence x \<and> hb_confidence x \<le> 1"
    using assms(1-3) by (auto simp: gridBandsOf_def inferredBands_def Let_def split: if_splits)
  then have "\<forall>x\<in>set (sortBy (\<lambda>a b. hb_y a - hb_y b) ?input).
               0 \<le> hb_confidence x \<and> hb_confidence x \<le> 1"
    by simp
  from mergeBandsLoop_range [where merged = "[]" and cfg = cfg and lineHeight = lineHeight, OF _ this]
  have "\<forall>x\<in>set (mergeBandsLoop cfg lineHeight [] (sortBy (\<lambda>a b. hb_y a - hb_y b) ?input)).
          0 \<le> hb_confidence x \<and> hb_confidence x \<le> 1"
    by simp
  with assms(4) show ?thesis
    by (simp add: layoutBandsOf_def buildLayoutBands_def)
qed

text \<open>
  C7, as the code has it.  The confidence of every strip that the gap detector returns
  lies in [0,1], for every input.  The horizontal bands that \<open>detectLayout\<close> builds
  (the bands of the gap detector, of which there are none, the bands of the grid lines
  at 0.95, and the bands inferred from the strip extents, merged) have a confidence in
  [0,1] when the configured \<open>inferredBandConfidence\<close> lies in [0,1], as its default 0.8 does.
\<close>

theorem confidence_bounds:
  "(\<forall>s\<in>set (fst (detectGapsFromRects spanRects pageRect)).
       0 \<le> vs_confidence s \<and> vs_confidence s \<le> 1)
   \<and> (0 \<le> inferredBandConfidence cfg \<and> inferredBandConfidence cfg \<le> 1
        \<longrightarrow> (\<forall>b\<in>set (detectLayoutBands cfg gridDetector infos spans pageRect).
               0 \<le> hb_confidence b \<and> hb_confidence b \<le> 1))"
proof (intro conjI ballI impI)
  fix s
  assume "s \<in> set (fst (detectGapsFromRects spanRects pageRect))"
  from detectGapsFromRects_strip_range [OF this]
  show "0 \<le> vs_confidence s" and "vs_confidence s \<le> 1" by simp_all
next
  fix b
  assume c: "0 \<le> inferredBandConfidence cfg \<and> inferredBandConfidence cfg \<le> 1"
    and b: "b \<in> set (detectLayoutBands cfg gridDetector infos spans pageRect)"
  from b obtain lineHeight strips horizontalLines
    where "b \<in> set (layoutBandsOf cfg pageRect lineHeight strips [] horizontalLines)"
    by (auto simp: detectLayoutBands_def Let_def)
  from layoutBandsOf_range [OF _ _ _ this] c
  show "0 \<le> hb_confidence b" and "hb_confidence b \<le> 1" by simp_all
qed

subsection \<open>The page with a header over two columns\<close>

lemma withInferred_default: "withInferred (4 / 5) = defaultLayoutSettings"
  by (simp add: withInferred_def defaultLayoutSettings_def)

lemma headerPage_simps [simp]: "headerPage 0 = plainSpan 0 0 100 8 10 [104]"
  "headerPage (Suc 0) = plainSpan 0 12 48 20 10 [97]" 
  "headerPage 2 = plainSpan 52 12 100 20 10 [98]"
  "headerPage 3 = plainSpan 0 22 48 30 10 [99]"
  "headerPage 4 = plainSpan 52 22 100 30 10 [100]"
  by (simp_all add: headerPage_def)

lemma header_keys: "snapshotKeys headerSpans = headerSpans"
  by (simp add: snapshotKeys_def headerSpans_def)

lemma header_sorted: "sortSpansTopLeft headerPage headerSpans = headerSpans"
  by (simp add: headerSpans_def eval_defs)

lemma header_rects: "map (\<lambda>s. rect (headerPage s)) headerSpans = headerRects"
  by (simp add: plainSpan_def headerRects_def headerSpans_def)

lemma header_stage1:
  "mergeIntoParagraphsFromInfos (withInferred c) headerPage headerSpans = headerParagraphs"
  unfolding mergeIntoParagraphsFromInfos_def header_sorted
  by (simp add: withInferred_def headerSpans_def headerParagraphs_def initialMergeTest_def hyphenContinuation_def isRtl_def
        eval_defs jsTrim_def endsWithHyphenRe_def isJsWhiteSpace_def)

lemma header_lineHeight:
  "estimateLineHeightFromInfos (withInferred c) headerParagraphs headerPage headerSpans headerRect = 64 / 5"
  by (simp add: estimateLineHeightFromInfos_def paragraphGaps_def withInferred_def default_fields plainSpan_def plainStyle_def
    headerSpans_def headerParagraphs_def headerRect_def
    sortBy_def sortNumbers_def middleOf_def Let_def)

lemma header_avgLine: "estimateAverageLineHeight headerRects = 8"
  by (simp add: estimateAverageLineHeight_def headerRects_def middleOf_def sortNumbers_def sortBy_def)

lemma header_bands: "sweepBands headerRects headerRect 8 0 =
   [\<lparr>b_y1 = 0, b_y2 = 6, b_gaps = []\<rparr>, \<lparr>b_y1 = 6, b_y2 = 12, b_gaps = []\<rparr>,
    \<lparr>b_y1 = 12, b_y2 = 18, b_gaps = [(48, 52)]\<rparr>, \<lparr>b_y1 = 18, b_y2 = 24, b_gaps = [(48, 52)]\<rparr>,
    \<lparr>b_y1 = 24, b_y2 = 30, b_gaps = [(48, 52)]\<rparr>]"
  by (simp add: sweepBands.simps bandStepOf_8 bandAt_def headerRects_def headerRect_def Let_def sortBy_def)

lemma header_clusters: "clusterGaps 8 [\<lparr>b_y1 = 0, b_y2 = 6, b_gaps = []\<rparr>, \<lparr>b_y1 = 6, b_y2 = 12, b_gaps = []\<rparr>,
    \<lparr>b_y1 = 12, b_y2 = 18, b_gaps = [(48, 52)]\<rparr>, \<lparr>b_y1 = 18, b_y2 = 24, b_gaps = [(48, 52)]\<rparr>,
    \<lparr>b_y1 = 24, b_y2 = 30, b_gaps = [(48, 52)]\<rparr>] = [headerCluster]"
  by (simp add: clusterGaps_def clusterBand_def headerCluster_def)

lemma header_sel: "c_centers headerCluster = [50, 50, 50]" "c_lefts headerCluster = [48, 48, 48]"
  "c_rights headerCluster = [52, 52, 52]" "c_y1s headerCluster = [12, 18, 24]"
  "c_y2s headerCluster = [18, 24, 30]" "c_widths headerCluster = [4, 4, 4]"
  by (simp_all add: headerCluster_def)

lemma header_confidence: "clusterConfidence (Suc (Suc (Suc (Suc (Suc 0))))) headerCluster = 4 / 5"
  by (simp add: clusterConfidence_def header_sel stddev_def median_def middleOf_def sortNumbers_def sortBy_def
     approxUniqueBandCount_def jsRound_def clamp01_def Let_def)

lemma header_strips: "detectGapsFromRects headerRects headerRect = ([headerStrip], [])"
proof -
  have ne: "headerRects \<noteq> []" by (simp add: headerRects_def)
  have top: "r_top headerRect = 0" by (simp add: headerRect_def)
  show ?thesis
    unfolding detectGapsFromRects_def detectStripsAndBands_def stripsOfBands_def Let_def header_avgLine top header_bands header_clusters
    using ne
    by (simp add: clusterStrip_def header_confidence header_sel headerStrip_def
       median_def middleOf_def sortNumbers_def
        minOfList_def maxOfList_def mergeSimilarStrips_def sortBy_def)
qed

lemma header_layoutBands: "detectLayoutBands (withInferred c) noGrid headerPage headerSpans headerRect
   = [\<lparr>hb_y = 0, hb_height = 12, hb_confidence = c\<rparr>]"
  unfolding detectLayoutBands_def Let_def header_keys header_stage1 header_lineHeight header_rects header_strips
  by (simp add: layoutBandsOf_def keptStrips_def gridBandsOf_def buildLayoutBands_def inferredBands_def noGrid_def
     minOfList_def maxOfList_def sortBy_def withInferred_def default_fields headerStrip_def headerRect_def)

theorem confidence_bounds_witness:
  "headerStrip \<in> set (fst (detectGapsFromRects headerRects headerRect))
   \<and> 0 \<le> vs_confidence headerStrip \<and> vs_confidence headerStrip \<le> 1
   \<and> detectLayoutBands defaultLayoutSettings noGrid headerPage headerSpans headerRect
       = [\<lparr>hb_y = 0, hb_height = 12, hb_confidence = 4 / 5\<rparr>]
   \<and> 0 \<le> hb_confidence \<lparr>hb_y = 0, hb_height = 12, hb_confidence = 4 / 5\<rparr>
   \<and> hb_confidence \<lparr>hb_y = 0, hb_height = 12, hb_confidence = 4 / 5\<rparr> \<le> 1"
proof -
  let ?band = "\<lparr>hb_y = 0, hb_height = 12, hb_confidence = 4 / 5\<rparr>"
  have s: "headerStrip \<in> set (fst (detectGapsFromRects headerRects headerRect))"
    by (simp add: header_strips)
  have e: "detectLayoutBands defaultLayoutSettings noGrid headerPage headerSpans headerRect
             = [?band]"
    using header_layoutBands [of "4 / 5"] by (simp only: withInferred_default)
  then have b: "?band \<in> set (detectLayoutBands defaultLayoutSettings noGrid headerPage
                               headerSpans headerRect)"
    by simp
  have c: "0 \<le> inferredBandConfidence defaultLayoutSettings
           \<and> inferredBandConfidence defaultLayoutSettings \<le> 1"
    by (simp add: default_fields)
  from confidence_bounds [of headerRects headerRect defaultLayoutSettings noGrid headerPage
         headerSpans] s b c
  have "0 \<le> vs_confidence headerStrip \<and> vs_confidence headerStrip \<le> 1
        \<and> 0 \<le> hb_confidence ?band \<and> hb_confidence ?band \<le> 1"
    by blast
  with s e show ?thesis by blast
qed

text \<open>
  The bound on the bands fails for a configuration outside [0,1]: with
  \<open>inferredBandConfidence = 2\<close> and the other settings at their defaults, the page with
  the header gets the band above its strip with confidence 2.
\<close>

theorem band_confidence_counterexample:
  "inferredBandConfidence (withInferred 2) = 2
   \<and> fst (detectGapsFromRects (map (\<lambda>s. rect (headerPage s)) (snapshotKeys headerSpans))
            headerRect) = [headerStrip]
   \<and> detectLayoutBands (withInferred 2) noGrid headerPage headerSpans headerRect
       = [\<lparr>hb_y = 0, hb_height = 12, hb_confidence = 2\<rparr>]
   \<and> \<not> hb_confidence \<lparr>hb_y = 0, hb_height = 12, hb_confidence = 2\<rparr> \<le> 1"
proof -
  have "inferredBandConfidence (withInferred 2) = 2"
    by (simp add: withInferred_def)
  then show ?thesis
    by (simp add: header_layoutBands header_keys header_rects header_strips)
qed

subsection \<open>Every stage keeps the fragments: grouping and splitting\<close>

lemma groupSpans_mset:
  "mset (concat (groupSpans cfg infos current paragraphs xs))
     = mset (concat paragraphs) + mset current + mset xs"
  by (induction xs arbitrary: current paragraphs) auto

lemma groupSpans_nonempty:
  "[] \<notin> set paragraphs \<Longrightarrow> [] \<notin> set (groupSpans cfg infos current paragraphs xs)"
  by (induction xs arbitrary: current paragraphs) auto

lemma mergeIntoParagraphsFromInfos_mset:
  "mset (concat (mergeIntoParagraphsFromInfos cfg infos keys)) = mset keys"
  by (simp add: mergeIntoParagraphsFromInfos_def groupSpans_mset)

lemma mergeIntoParagraphsFromInfos_nonempty:
  "[] \<notin> set (mergeIntoParagraphsFromInfos cfg infos keys)"
  by (simp add: mergeIntoParagraphsFromInfos_def groupSpans_nonempty)

text \<open>Buckets by index: every element lands in the bucket of its index.\<close>

lemma buckets_mset_below:
  "mset (concat (map (\<lambda>k. filter (\<lambda>s. f s = k) xs) [0 ..< n]))
     = mset (filter (\<lambda>s. f s < n) xs)"
proof (induction n)
  case 0
  then show ?case by simp
next
  case (Suc n)
  have "mset (filter (\<lambda>s. f s < Suc n) xs)
          = mset (filter (\<lambda>s. f s < n) xs) + mset (filter (\<lambda>s. f s = n) xs)"
    by (induction xs) auto
  with Suc show ?case by simp
qed

lemma buckets_mset:
  assumes "\<forall>s\<in>set xs. f s < n"
  shows "mset (concat (map (\<lambda>k. filter (\<lambda>s. f s = k) xs) [0 ..< n])) = mset xs"
proof -
  from assms have "filter (\<lambda>s. f s < n) xs = xs"
    by (simp add: filter_id_conv)
  with buckets_mset_below [of f xs n] show ?thesis by simp
qed

lemma findRegion_bound: "findRegion cx regions = Some i \<Longrightarrow> i < length regions"
proof (induction regions arbitrary: i)
  case Nil
  then show ?case by simp
next
  case (Cons r regions)
  then show ?case
    by (cases r) (auto split: if_splits)
qed

lemma regionIndex_bound: "regions \<noteq> [] \<Longrightarrow> regionIndex cx regions < length regions"
  by (cases regions)
     (auto simp: regionIndex_def dest: findRegion_bound split: option.splits prod.splits)

lemma regionsOf_nonempty: "regionsOf (a # xs @ [b]) \<noteq> []"
  by (cases xs) auto

lemma concat_sorted_groups_mset:
  "mset (concat (map (sortSpansTopLeft infos) (filter (\<lambda>b. b \<noteq> []) buckets)))
     = mset (concat buckets)"
  by (induction buckets) auto

lemma splitParagraphByStrips_mset:
  "mset (concat (splitParagraphByStrips cfg paragraph infos strips lineHeight)) = mset paragraph"
proof -
  have part: "mset (concat (map (\<lambda>k. filter (\<lambda>s. regionIndex (spanCenterX infos s)
                                                    (regionsOf (a # u @ [b])) = k) xs)
                              [0 ..< length (regionsOf (a # u @ [b]))])) = mset xs"
    for a b u and xs :: "'a list"
    by (rule buckets_mset) (simp add: regionIndex_bound regionsOf_nonempty)
  show ?thesis
    by (simp add: splitParagraphByStrips_def Let_def concat_sorted_groups_mset part)
qed

lemma Nil_eq_sortSpansTopLeft [simp]: "([] = sortSpansTopLeft infos xs) = (xs = [])"
  using sortSpansTopLeft_eq_Nil [of infos xs] by (simp only: eq_commute [of "[]"])

lemma sorted_groups_nonempty:
  "[] \<notin> set (map (sortSpansTopLeft infos) (filter (\<lambda>b. b \<noteq> []) buckets))"
  by (induction buckets) auto

lemma splitParagraphByStrips_nonempty:
  assumes "paragraph \<noteq> []"
  shows "[] \<notin> set (splitParagraphByStrips cfg paragraph infos strips lineHeight)"
proof -
  have "[] \<notin> set (if c then gs else [paragraph])" if "[] \<notin> set gs" for c and gs
    using that assms by simp
  from this [OF sorted_groups_nonempty] assms show ?thesis
    unfolding splitParagraphByStrips_def Let_def
    by (simp del: set_map set_filter)
qed

lemma concat_map_mset:
  assumes "\<forall>p\<in>set ps. mset (concat (f p)) = mset p"
  shows "mset (concat (concat (map f ps))) = mset (concat ps)"
  using assms by (induction ps) auto

lemma validateParagraphs_mset:
  "mset (concat (validateParagraphsAgainstStripsFromInfos cfg paragraphs infos strips
                   lineHeight viewportWidth)) = mset (concat paragraphs)"
  by (simp add: validateParagraphsAgainstStripsFromInfos_def Let_def concat_map_mset
        splitParagraphByStrips_mset)

lemma validateParagraphs_nonempty:
  "[] \<notin> set paragraphs
     \<Longrightarrow> [] \<notin> set (validateParagraphsAgainstStripsFromInfos cfg paragraphs infos strips
                       lineHeight viewportWidth)"
proof -
  assume ne: "[] \<notin> set paragraphs"
  have "[] \<notin> set (splitParagraphByStrips cfg p infos s lineHeight)" if "p \<in> set paragraphs"
    for p s
    using that ne by (intro splitParagraphByStrips_nonempty) auto
  with ne show ?thesis
    by (auto simp: validateParagraphsAgainstStripsFromInfos_def Let_def)
qed

subsection \<open>Every stage keeps the fragments: the merges\<close>

lemma paraStyle_Some: "p \<noteq> [] \<Longrightarrow> \<exists>st. paraStyle infos p = Some st"
  by (cases p) (auto simp: paraStyle_def)

lemma mergeScan_keeps:
  assumes "[] \<notin> set ps"
  shows "\<exists>c r. mergeScan cfg infos lineHeight strips bands currStyle current currBbox ps
                  = Some (c, r)
               \<and> mset c + mset (concat r) = mset current + mset (concat ps)
               \<and> [] \<notin> set r \<and> (current \<noteq> [] \<longrightarrow> c \<noteq> [])"
  using assms
proof (induction ps arbitrary: current currBbox)
  case Nil
  then show ?case by simp
next
  case (Cons nxt rest)
  from Cons.prems have ne: "nxt \<noteq> []" and rest: "[] \<notin> set rest" by auto
  from paraStyle_Some [OF ne] obtain nextStyle where st: "paraStyle infos nxt = Some nextStyle"
    by blast
  show ?case
  proof (cases "generalMergeTest cfg lineHeight strips bands currStyle currBbox nextStyle
                  (getParaBbox infos nxt)")
    case True
    from Cons.IH [OF rest, of "current @ nxt" "getParaBbox infos (current @ nxt)"]
    obtain c r where
      "mergeScan cfg infos lineHeight strips bands currStyle (current @ nxt)
         (getParaBbox infos (current @ nxt)) rest = Some (c, r)"
      "mset c + mset (concat r) = mset (current @ nxt) + mset (concat rest)"
      "[] \<notin> set r" "current @ nxt \<noteq> [] \<longrightarrow> c \<noteq> []"
      by blast
    with True st ne show ?thesis by simp
  next
    case False
    from Cons.IH [OF rest, of current currBbox]
    obtain c r where
      "mergeScan cfg infos lineHeight strips bands currStyle current currBbox rest = Some (c, r)"
      "mset c + mset (concat r) = mset current + mset (concat rest)"
      "[] \<notin> set r" "current \<noteq> [] \<longrightarrow> c \<noteq> []"
      by blast
    with False st ne show ?thesis by simp
  qed
qed

lemma mergeLoop_keeps:
  assumes "[] \<notin> set ps"
  shows "\<exists>r. mergeLoop cfg infos lineHeight strips bands ps = Some r
             \<and> mset (concat r) = mset (concat ps) \<and> [] \<notin> set r"
  using assms
proof (induction cfg infos lineHeight strips bands ps rule: mergeLoop.induct)
  case (1 cfg infos lineHeight strips bands)
  then show ?case by simp
next
  case (2 cfg infos lineHeight strips bands p ps)
  from "2.prems" have ne: "p \<noteq> []" and rest: "[] \<notin> set ps" by auto
  from paraStyle_Some [OF ne] obtain currStyle where st: "paraStyle infos p = Some currStyle"
    by blast
  from mergeScan_keeps [OF rest, of cfg infos lineHeight strips bands currStyle p
         "getParaBbox infos p"] ne
  obtain c r where sc:
    "mergeScan cfg infos lineHeight strips bands currStyle p (getParaBbox infos p) ps
       = Some (c, r)"
    and ms: "mset c + mset (concat r) = mset p + mset (concat ps)"
    and rn: "[] \<notin> set r" and cn: "c \<noteq> []"
    by blast
  from "2.IH" [OF st sc refl rn]
  obtain m where "mergeLoop cfg infos lineHeight strips bands r = Some m"
    "mset (concat m) = mset (concat r)" "[] \<notin> set m"
    by blast
  with st sc ms cn show ?case by simp
qed

lemma mergeParagraphsFromInfos_keeps:
  assumes "[] \<notin> set ps"
  shows "\<exists>r. mergeParagraphsFromInfos cfg ps infos lineHeight strips bands vw = Some r
             \<and> mset (concat r) = mset (concat ps) \<and> [] \<notin> set r"
  using mergeLoop_keeps [OF assms] by (simp add: mergeParagraphsFromInfos_def)

text \<open>The infos of a list of non-empty paragraphs.\<close>

lemma those_mkPInfoT:
  assumes "[] \<notin> set ps"
  shows "\<exists>pinfos. those (map (mkPInfoT infos) ps) = Some pinfos \<and> map t_spans pinfos = ps"
  using assms
proof (induction ps)
  case Nil
  then show ?case by simp
next
  case (Cons p ps)
  then obtain pinfos where "those (map (mkPInfoT infos) ps) = Some pinfos"
    "map t_spans pinfos = ps"
    by auto
  moreover from Cons.prems have "p \<noteq> []" by auto
  from paraStyle_Some [OF this] obtain st where "paraStyle infos p = Some st" by blast
  then obtain x where "mkPInfoT infos p = Some x" "t_spans x = p" by (simp add: mkPInfoT_def)
  ultimately show ?case by simp
qed

lemma those_mkPInfo:
  assumes "[] \<notin> set ps"
  shows "\<exists>pinfos. those (map (mkPInfo infos) ps) = Some pinfos \<and> map p_spans pinfos = ps"
  using assms
proof (induction ps)
  case Nil
  then show ?case by simp
next
  case (Cons p ps)
  then obtain pinfos where "those (map (mkPInfo infos) ps) = Some pinfos"
    "map p_spans pinfos = ps"
    by auto
  moreover from Cons.prems have "p \<noteq> []" by auto
  from paraStyle_Some [OF this] obtain st where "paraStyle infos p = Some st" by blast
  then obtain x where "mkPInfo infos p = Some x" "p_spans x = p" by (simp add: mkPInfo_def)
  ultimately show ?case by simp
qed

lemma findNested_keeps:
  "findNested cfg strips bands base ps = Some (c, r)
     \<Longrightarrow> mset (concat (map t_spans ps)) = mset (t_spans c) + mset (concat (map t_spans r))
         \<and> set r \<subseteq> set ps \<and> c \<in> set ps"
proof (induction ps arbitrary: c r)
  case Nil
  then show ?case by simp
next
  case (Cons cand rest)
  then show ?case
    by (fastforce split: if_splits option.splits)
qed

lemma combinePInfoT_spans:
  "mset (t_spans (combinePInfoT infos base cand)) = mset (t_spans base) + mset (t_spans cand)"
  by (simp add: combinePInfoT_def Let_def)

lemma combinePInfoT_nonempty:
  "t_spans base \<noteq> [] \<Longrightarrow> t_spans (combinePInfoT infos base cand) \<noteq> []"
  using combinePInfoT_spans [of infos base cand] by (metis mset_zero_iff union_eq_empty)

lemma nestedPass_keeps:
  "nestedPass cfg infos strips bands ps = (out, ch)
     \<Longrightarrow> mset (concat out) = mset (concat (map t_spans ps))
         \<and> ((\<forall>p\<in>set ps. t_spans p \<noteq> []) \<longrightarrow> [] \<notin> set out)"
proof (induction cfg infos strips bands ps arbitrary: out ch rule: nestedPass.induct)
  case (1 cfg infos strips bands)
  then show ?case by simp
next
  case (2 cfg infos strips bands base rest)
  show ?case
  proof (cases "findNested cfg strips bands base rest")
    case None
    obtain o' c' where p: "nestedPass cfg infos strips bands rest = (o', c')"
      by (cases "nestedPass cfg infos strips bands rest") auto
    from "2.IH"(1) [OF None p]
    have "mset (concat o') = mset (concat (map t_spans rest))
          \<and> ((\<forall>p\<in>set rest. t_spans p \<noteq> []) \<longrightarrow> [] \<notin> set o')" .
    moreover from "2.prems" None p have "out = t_spans base # o'" by simp
    ultimately show ?thesis by auto
  next
    case (Some a)
    then obtain cand rest' where f: "findNested cfg strips bands base rest = Some (cand, rest')"
      by (cases a) auto
    obtain o' c' where p: "nestedPass cfg infos strips bands rest' = (o', c')"
      by (cases "nestedPass cfg infos strips bands rest'") auto
    from "2.IH"(2) [OF f refl p]
    have ih: "mset (concat o') = mset (concat (map t_spans rest'))
          \<and> ((\<forall>p\<in>set rest'. t_spans p \<noteq> []) \<longrightarrow> [] \<notin> set o')" .
    from findNested_keeps [OF f]
    have k: "mset (concat (map t_spans rest))
               = mset (t_spans cand) + mset (concat (map t_spans rest'))"
      and sub: "set rest' \<subseteq> set rest"
      by simp_all
    from "2.prems" f p have o: "out = t_spans (combinePInfoT infos base cand) # o'" by simp
    have "mset (concat out) = mset (concat (map t_spans (base # rest)))"
      using ih k by (simp add: o combinePInfoT_spans)
    moreover have "(\<forall>p\<in>set (base # rest). t_spans p \<noteq> []) \<longrightarrow> [] \<notin> set out"
      using ih sub combinePInfoT_nonempty [of base infos cand] by (auto simp: o)
    ultimately show ?thesis by blast
  qed
qed

lemma mergeNestedParagraphsOnceFromInfos_keeps:
  assumes "[] \<notin> set ps"
  shows "\<exists>r ch. mergeNestedParagraphsOnceFromInfos cfg ps infos strips bands vw = Some (r, ch)
             \<and> mset (concat r) = mset (concat ps) \<and> [] \<notin> set r"
proof (cases "ps = []")
  case True
  then show ?thesis by (auto simp: mergeNestedParagraphsOnceFromInfos_def)
next
  case False
  from those_mkPInfoT [OF assms, of infos]
  obtain pinfos where t: "those (map (mkPInfoT infos) ps) = Some pinfos"
    and m: "map t_spans pinfos = ps"
    by blast
  obtain r ch where n: "nestedPass cfg infos (filterStrips cfg strips vw) bands pinfos = (r, ch)"
    by (cases "nestedPass cfg infos (filterStrips cfg strips vw) bands pinfos") auto
  from assms m have "\<forall>p\<in>set pinfos. t_spans p \<noteq> []" by (metis image_eqI set_map)
  with nestedPass_keeps [OF n] m
  have "mset (concat r) = mset (concat ps) \<and> [] \<notin> set r" by simp
  with False t n show ?thesis by (simp add: mergeNestedParagraphsOnceFromInfos_def)
qed

lemma nestedLoop_keeps:
  assumes "[] \<notin> set ps"
  shows "\<exists>r. nestedLoop cfg infos lineHeight strips bands guard ps = Some r
             \<and> mset (concat r) = mset (concat ps) \<and> [] \<notin> set r"
  using assms
proof (induction cfg infos lineHeight strips bands guard ps rule: nestedLoop.induct)
  case (1 cfg infos lineHeight strips bands guard ps)
  show ?case
  proof (cases "real guard < maxIterMerges cfg")
    case False
    with "1.prems" show ?thesis by (simp add: nestedLoop.simps)
  next
    case True
    from mergeNestedParagraphsOnceFromInfos_keeps [OF "1.prems", of cfg infos strips bands None]
    obtain m ch where
      n: "mergeNestedParagraphsOnceFromInfos cfg ps infos strips bands None = Some (m, ch)"
      and nm: "mset (concat m) = mset (concat ps)" and nn: "[] \<notin> set m"
      by blast
    show ?thesis
    proof (cases ch)
      case False
      with True n nm nn show ?thesis by (simp add: nestedLoop.simps)
    next
      case ch: True
      let ?v = "validateParagraphsAgainstStripsFromInfos cfg m infos strips 0 None"
      have vm: "mset (concat ?v) = mset (concat m)" by (rule validateParagraphs_mset)
      have vn: "[] \<notin> set ?v" using nn by (rule validateParagraphs_nonempty)
      from mergeParagraphsFromInfos_keeps [OF vn, of cfg infos lineHeight strips bands None]
      obtain q where
        q: "mergeParagraphsFromInfos cfg ?v infos lineHeight strips bands None = Some q"
        and qm: "mset (concat q) = mset (concat ?v)" and qn: "[] \<notin> set q"
        by blast
      from ch have nch: "\<not> \<not> ch" by simp
      from "1.IH" [OF True n refl nch q qn]
      obtain r where "nestedLoop cfg infos lineHeight strips bands (Suc guard) q = Some r"
        "mset (concat r) = mset (concat q)" "[] \<notin> set r"
        by blast
      with True n ch q qm vm nm show ?thesis by (simp add: nestedLoop.simps)
    qed
  qed
qed

text \<open>The final stacked pass.\<close>

lemma combinePInfo_spans:
  "mset (p_spans (combinePInfo infos base cand)) = mset (p_spans base) + mset (p_spans cand)"
  by (simp add: combinePInfo_def Let_def)

lemma combinePInfo_nonempty:
  "p_spans base \<noteq> [] \<Longrightarrow> p_spans (combinePInfo infos base cand) \<noteq> []"
  using combinePInfo_spans [of infos base cand] by (metis mset_zero_iff union_eq_empty)

lemma stackedScan_keeps:
  "stackedScan cfg infos lineHeight strips bands base ps = (b, r, ch)
     \<Longrightarrow> mset (p_spans b) + mset (concat (map p_spans r))
           = mset (p_spans base) + mset (concat (map p_spans ps))
         \<and> set r \<subseteq> set ps \<and> (p_spans base \<noteq> [] \<longrightarrow> p_spans b \<noteq> [])"
proof (induction ps arbitrary: base b r ch)
  case Nil
  then show ?case by simp
next
  case (Cons cand rest)
  show ?case
  proof (cases "stackedMergeTest cfg lineHeight strips bands base cand")
    case True
    obtain b' r' c' where
      s: "stackedScan cfg infos lineHeight strips bands (combinePInfo infos base cand) rest
            = (b', r', c')"
      by (cases "stackedScan cfg infos lineHeight strips bands (combinePInfo infos base cand) rest")
         auto
    from Cons.IH [OF s] Cons.prems True s combinePInfo_nonempty [of base infos cand]
    show ?thesis by (auto simp: combinePInfo_spans)
  next
    case False
    obtain b' r' c' where
      s: "stackedScan cfg infos lineHeight strips bands base rest = (b', r', c')"
      by (cases "stackedScan cfg infos lineHeight strips bands base rest") auto
    from Cons.IH [OF s] Cons.prems False s
    show ?thesis by auto
  qed
qed

lemma stackedPass_keeps:
  "stackedPass cfg infos lineHeight strips bands ps = (out, ch)
     \<Longrightarrow> mset (concat (map p_spans out)) = mset (concat (map p_spans ps))
         \<and> ((\<forall>p\<in>set ps. p_spans p \<noteq> []) \<longrightarrow> (\<forall>p\<in>set out. p_spans p \<noteq> []))"
proof (induction cfg infos lineHeight strips bands ps arbitrary: out ch rule: stackedPass.induct)
  case (1 cfg infos lineHeight strips bands)
  then show ?case by simp
next
  case (2 cfg infos lineHeight strips bands base rest)
  obtain b r c where s: "stackedScan cfg infos lineHeight strips bands base rest = (b, r, c)"
    by (cases "stackedScan cfg infos lineHeight strips bands base rest") auto
  obtain o' c' where p: "stackedPass cfg infos lineHeight strips bands r = (o', c')"
    by (cases "stackedPass cfg infos lineHeight strips bands r") auto
  from "2.IH" [OF s [symmetric] refl p]
  have ih: "mset (concat (map p_spans o')) = mset (concat (map p_spans r))
            \<and> ((\<forall>p\<in>set r. p_spans p \<noteq> []) \<longrightarrow> (\<forall>p\<in>set o'. p_spans p \<noteq> []))" .
  from stackedScan_keeps [OF s]
  have k: "mset (p_spans b) + mset (concat (map p_spans r))
             = mset (p_spans base) + mset (concat (map p_spans rest))"
    and sub: "set r \<subseteq> set rest" and bn: "p_spans base \<noteq> [] \<longrightarrow> p_spans b \<noteq> []"
    by simp_all
  from "2.prems" s p have o: "out = b # o'" by simp
  have "mset (concat (map p_spans out)) = mset (concat (map p_spans (base # rest)))"
    using ih k by (simp add: o)
  moreover have "(\<forall>p\<in>set (base # rest). p_spans p \<noteq> []) \<longrightarrow> (\<forall>p\<in>set out. p_spans p \<noteq> [])"
    using ih sub bn by (auto simp: o)
  ultimately show ?case by blast
qed

lemma mset_concat_map_cong:
  "mset xs = mset ys \<Longrightarrow> mset (concat (map f xs)) = mset (concat (map f ys))"
  by (metis mset_concat mset_map sum_mset_sum_list map_map)

lemma sortPInfos_keeps:
  "mset (concat (map p_spans (sortPInfos ps))) = mset (concat (map p_spans ps))"
  by (rule mset_concat_map_cong) (simp add: sortPInfos_def)

lemma stackedLoop_keeps:
  "mset (concat (stackedLoop cfg infos lineHeight strips bands ps))
     = mset (concat (map p_spans ps))"
proof (induction cfg infos lineHeight strips bands ps rule: stackedLoop.induct)
  case (1 cfg infos lineHeight strips bands ps)
  obtain out ch where p: "stackedPass cfg infos lineHeight strips bands ps = (out, ch)"
    by (cases "stackedPass cfg infos lineHeight strips bands ps") auto
  from stackedPass_keeps [OF p]
  have k: "mset (concat (map p_spans out)) = mset (concat (map p_spans ps))" by simp
  show ?case
  proof (cases ch)
    case True
    from "1.IH" [OF p [symmetric] True] k p True show ?thesis
      by (simp add: stackedLoop.simps [of _ _ _ _ _ ps] sortPInfos_keeps)
  next
    case False
    with k p show ?thesis by (simp add: stackedLoop.simps [of _ _ _ _ _ ps])
  qed
qed

lemma mergeStackedColumnParagraphsFromInfos_keeps:
  assumes "[] \<notin> set ps"
  shows "\<exists>r. mergeStackedColumnParagraphsFromInfos cfg ps infos lineHeight strips bands vw
               = Some r
             \<and> mset (concat r) = mset (concat ps)"
proof (cases "ps = []")
  case True
  then show ?thesis by (simp add: mergeStackedColumnParagraphsFromInfos_def)
next
  case False
  from those_mkPInfo [OF assms, of infos]
  obtain pinfos where t: "those (map (mkPInfo infos) ps) = Some pinfos"
    and m: "map p_spans pinfos = ps"
    by blast
  have "mset (concat (stackedLoop cfg infos lineHeight (filterStrips cfg strips vw) bands
                        (sortPInfos pinfos)))
          = mset (concat ps)"
    using m by (simp add: stackedLoop_keeps sortPInfos_keeps)
  with False t show ?thesis by (simp add: mergeStackedColumnParagraphsFromInfos_def)
qed

lemma mergeStages_keeps:
  assumes "[] \<notin> set ps"
  shows "\<exists>r. mergeStages cfg infos lineHeight strips bands ps = Some r
             \<and> mset (concat r) = mset (concat ps)"
proof -
  let ?v = "validateParagraphsAgainstStripsFromInfos cfg ps infos strips 0 None"
  have vm: "mset (concat ?v) = mset (concat ps)" by (rule validateParagraphs_mset)
  have vn: "[] \<notin> set ?v" using assms by (rule validateParagraphs_nonempty)
  from mergeParagraphsFromInfos_keeps [OF vn, of cfg infos lineHeight strips bands None]
  obtain p6 where
    p6: "mergeParagraphsFromInfos cfg ?v infos lineHeight strips bands None = Some p6"
    and m6: "mset (concat p6) = mset (concat ?v)" and n6: "[] \<notin> set p6"
    by blast
  from nestedLoop_keeps [OF n6, of cfg infos lineHeight strips bands 0]
  obtain p7 where p7: "nestedLoop cfg infos lineHeight strips bands 0 p6 = Some p7"
    and m7: "mset (concat p7) = mset (concat p6)" and n7: "[] \<notin> set p7"
    by blast
  from mergeStackedColumnParagraphsFromInfos_keeps [OF n7, of cfg infos lineHeight strips bands None]
  obtain r where
    "mergeStackedColumnParagraphsFromInfos cfg p7 infos lineHeight strips bands None = Some r"
    "mset (concat r) = mset (concat p7)"
    by blast
  with p6 p7 m6 m7 vm show ?thesis by (simp add: mergeStages_def)
qed
subsection \<open>Every stage keeps the fragments: stitching, ordering, deduplication\<close>

lemma stitchLoop_mset:
  "mset (stitchLoop cfg infos stitched grp prv xs) = mset stitched + mset grp + mset xs"
  by (induction xs arbitrary: stitched grp prv) simp_all

lemma stitchParagraph_mset: "mset (stitchParagraph cfg infos p) = mset p"
proof (cases "sortSpansTopLeft infos p")
  case Nil
  then show ?thesis by (simp add: stitchParagraph_def)
next
  case (Cons s rest)
  have "mset (sortSpansTopLeft infos p) = mset p" by simp
  with Cons have "mset p = add_mset s (mset rest)" by simp
  with Cons show ?thesis by (simp add: stitchParagraph_def stitchLoop_mset)
qed

lemma stitchInlineLigaturesFromInfos_set:
  "set (concat (stitchInlineLigaturesFromInfos cfg ps infos)) = set (concat ps)"
proof -
  have "set (stitchParagraph cfg infos p) = set p" for p
    using stitchParagraph_mset [of cfg infos p] by (rule mset_eq_setD)
  then show ?thesis by (simp add: stitchInlineLigaturesFromInfos_def)
qed

lemma bestBand_bound:
  "bestBand sTop sBot i bestIdx bestOverlap bs = Some k
     \<Longrightarrow> (\<forall>j. bestIdx = Some j \<longrightarrow> j < i + length bs) \<Longrightarrow> k < i + length bs"
proof (induction bs arbitrary: i bestIdx bestOverlap)
  case Nil
  then show ?case by simp
next
  case (Cons b rest)
  obtain tp bt regions where b: "b = ((tp, bt), regions)" by (cases b) auto
  from Cons.prems Cons.IH [of "Suc i" bestIdx bestOverlap]
       Cons.IH [of "Suc i" "Some i"
                  "(min sBot bt - max sTop tp) / max 1 (max (sBot - sTop) (bt - tp))"]
  show ?case by (auto simp: b Let_def split: if_splits)
qed

lemma nearestBand_bound:
  "idx < i + length bs \<Longrightarrow> nearestBand sc i idx bestDist bs < i + length bs"
proof (induction bs arbitrary: i idx bestDist)
  case Nil
  then show ?case by simp
next
  case (Cons b rest)
  obtain tp bt regions where b: "b = ((tp, bt), regions)" by (cases b) auto
  from Cons.prems Cons.IH [of idx "Suc i" bestDist]
       Cons.IH [of i "Suc i" "Some \<bar>sc - (tp + bt) / 2\<bar>"]
  show ?case by (auto simp: b)
qed

lemma bandIndexOf_bound:
  assumes "perBandRegions \<noteq> []"
  shows "bandIndexOf perBandRegions r < length perBandRegions"
proof (cases "bestBand (r_top r) (r_bottom r) 0 None 0 perBandRegions")
  case None
  from assms have "0 < 0 + length perBandRegions" by simp
  from nearestBand_bound [OF this] None show ?thesis by (simp add: bandIndexOf_def)
next
  case (Some k)
  from bestBand_bound [OF Some] Some show ?thesis by (simp add: bandIndexOf_def)
qed

lemma orderBucket_set: "set (orderBucket infos spans regions) = set spans"
proof (cases "regions = []")
  case True
  then show ?thesis by (simp add: orderBucket_def)
next
  case False
  have "\<And>s. regionIndex (spanCenterX infos s) regions < length regions"
    using False by (simp add: regionIndex_bound)
  then have "set (concat (map (sortSpansTopLeft infos)
               (map (\<lambda>k. filter (\<lambda>s. regionIndex (spanCenterX infos s) regions = k) spans)
                  [0 ..< length regions]))) = set spans"
    by auto
  then show ?thesis by (simp add: orderBucket_def Let_def)
qed

lemma orderParagraph_Nil: "orderParagraphByBandsAndColumns [] infos perBandRegions = []"
  by (simp add: orderParagraphByBandsAndColumns_def)

lemma orderParagraph_noRegions:
  "p \<noteq> [] \<Longrightarrow> orderParagraphByBandsAndColumns p infos [] = orderBucket infos p []"
  by (simp add: orderParagraphByBandsAndColumns_def Let_def orderBucket_def)

lemma orderParagraph_regions:
  assumes "p \<noteq> []" and "perBandRegions \<noteq> []"
    and "ordered = concat (map (\<lambda>k.
                              let spans = filter (\<lambda>s. bandIndexOf perBandRegions (rect (infos s)) = k) p
                              in if spans = [] then []
                                 else orderBucket infos spans (snd (perBandRegions ! k)))
                         [0 ..< length perBandRegions])"
  shows "orderParagraphByBandsAndColumns p infos perBandRegions
           = (if ordered = [] then p else ordered)"
  unfolding orderParagraphByBandsAndColumns_def assms(3) Let_def
  using assms(1,2) by (simp only: if_False)

lemma orderParagraphByBandsAndColumns_set:
  "set (orderParagraphByBandsAndColumns p infos perBandRegions) = set p"
proof (cases "p = []")
  case True
  then show ?thesis by (simp only: orderParagraph_Nil)
next
  case ne: False
  show ?thesis
  proof (cases "perBandRegions = []")
    case True
    from ne have "orderParagraphByBandsAndColumns p infos [] = orderBucket infos p []"
      by (rule orderParagraph_noRegions)
    with True show ?thesis by (simp only: orderBucket_set)
  next
    case False
    define bucket where "bucket = (\<lambda>k.
        let spans = filter (\<lambda>s. bandIndexOf perBandRegions (rect (infos s)) = k) p
        in if spans = [] then [] else orderBucket infos spans (snd (perBandRegions ! k)))"
    define ordered where "ordered = concat (map bucket [0 ..< length perBandRegions])"
    have b: "set (bucket k) = {s \<in> set p. bandIndexOf perBandRegions (rect (infos s)) = k}" for k
      by (auto simp: bucket_def Let_def orderBucket_set filter_empty_conv)
    have bound: "\<And>s. bandIndexOf perBandRegions (rect (infos s)) < length perBandRegions"
      using False by (simp add: bandIndexOf_bound)
    have "set ordered = (\<Union>k\<in>{0 ..< length perBandRegions}.
                {s \<in> set p. bandIndexOf perBandRegions (rect (infos s)) = k})"
      by (simp add: ordered_def b)
    also have "\<dots> = set p"
      using bound by auto
    finally have so: "set ordered = set p" .
    with ne have "ordered \<noteq> []" by auto
    moreover have "orderParagraphByBandsAndColumns p infos perBandRegions
                     = (if ordered = [] then p else ordered)"
      using ne False by (rule orderParagraph_regions) (simp only: ordered_def bucket_def)
    ultimately show ?thesis using so by simp
  qed
qed

lemma dedupSpans_set:
  "dedupSpans seen p = (u, seen')
     \<Longrightarrow> set u = set p - seen \<and> seen' = seen \<union> set p \<and> distinct u"
proof (induction p arbitrary: seen u seen')
  case Nil
  then show ?case by simp
next
  case (Cons s ss)
  show ?case
  proof (cases "s \<in> seen")
    case True
    with Cons.prems have "dedupSpans seen ss = (u, seen')" by simp
    from Cons.IH [OF this] True show ?thesis by auto
  next
    case False
    obtain u' where d: "dedupSpans (insert s seen) ss = (u', seen')" and u: "u = s # u'"
      using Cons.prems False by (auto split: prod.splits)
    from Cons.IH [OF d] False show ?thesis by (auto simp: u)
  qed
qed

lemma dedupLoop_set:
  "set (concat (dedupLoop seen ps)) = set (concat ps) - seen
   \<and> distinct (concat (dedupLoop seen ps)) \<and> [] \<notin> set (dedupLoop seen ps)"
proof (induction ps arbitrary: seen)
  case Nil
  then show ?case by simp
next
  case (Cons p ps)
  obtain u seen' where d: "dedupSpans seen p = (u, seen')"
    by (cases "dedupSpans seen p") auto
  from dedupSpans_set [OF d]
  have u: "set u = set p - seen" and s: "seen' = seen \<union> set p" and du: "distinct u"
    by simp_all
  from Cons.IH [of seen']
  have ih: "set (concat (dedupLoop seen' ps)) = set (concat ps) - seen'"
    "distinct (concat (dedupLoop seen' ps))" "[] \<notin> set (dedupLoop seen' ps)"
    by simp_all
  have "set (concat (dedupLoop seen (p # ps))) = set (concat (p # ps)) - seen"
    using u s ih(1) by (auto simp: d)
  moreover have "distinct (concat (dedupLoop seen (p # ps)))"
    using u s du ih(1,2) by (auto simp: d)
  moreover have "[] \<notin> set (dedupLoop seen (p # ps))"
    using ih(3) by (auto simp: d)
  ultimately show ?case by blast
qed

lemma sorted_paragraphs_set:
  "set (concat (map (sortSpansTopLeft infos) ps)) = set (concat ps)"
  by simp

lemma ordered_paragraphs_set:
  "set (concat (map (\<lambda>para. orderParagraphByBandsAndColumns para infos regions) ps))
     = set (concat ps)"
  by (simp add: orderParagraphByBandsAndColumns_set)

lemma finishStages_set:
  "set (concat (finishStages cfg infos pageRect strips bands ps)) = set (concat ps)
   \<and> distinct (concat (finishStages cfg infos pageRect strips bands ps))
   \<and> [] \<notin> set (finishStages cfg infos pageRect strips bands ps)"
proof -
  define p8 where "p8 = stitchInlineLigaturesFromInfos cfg ps infos"
  define p85 where "p85 = (if bands = [] then p8
              else map (\<lambda>para. orderParagraphByBandsAndColumns para infos
                                 (buildPerBandColumnRegions cfg strips pageRect bands)) p8)"
  define p9 where "p9 = map (sortSpansTopLeft infos) p85"
  have f: "finishStages cfg infos pageRect strips bands ps = dedupLoop {} p9"
    by (simp add: finishStages_def deduplicateParagraphs_def Let_def p8_def p85_def p9_def)
  have o: "set (concat p85) = set (concat p8)"
  proof (cases "bands = []")
    case True
    then have "p85 = p8" by (simp add: p85_def)
    then show ?thesis by simp
  next
    case False
    then have "p85 = map (\<lambda>para. orderParagraphByBandsAndColumns para infos
                                 (buildPerBandColumnRegions cfg strips pageRect bands)) p8"
      by (simp add: p85_def)
    then show ?thesis by (simp only: ordered_paragraphs_set)
  qed
  have "set (concat p9) = set (concat p85)"
    unfolding p9_def by (rule sorted_paragraphs_set)
  also note o
  also have "set (concat p8) = set (concat ps)"
    unfolding p8_def by (rule stitchInlineLigaturesFromInfos_set)
  finally have e: "set (concat p9) = set (concat ps)" .
  from dedupLoop_set [of "{}" p9]
  have d: "set (concat (dedupLoop {} p9)) = set (concat p9)"
    "distinct (concat (dedupLoop {} p9))" "[] \<notin> set (dedupLoop {} p9)"
    by simp_all
  from d(1) e have "set (concat (dedupLoop {} p9)) = set (concat ps)" by (rule trans)
  with d(2,3) show ?thesis unfolding f by blast
qed

lemma snapshotKeys_fold:
  "set (fold (\<lambda>s ks. if s \<in> set ks then ks else ks @ [s]) spans ks) = set ks \<union> set spans
   \<and> (distinct ks \<longrightarrow> distinct (fold (\<lambda>s ks. if s \<in> set ks then ks else ks @ [s]) spans ks))"
  by (induction spans arbitrary: ks) auto

lemma set_snapshotKeys [simp]: "set (snapshotKeys spans) = set spans"
  using snapshotKeys_fold [of spans "[]"] by (simp add: snapshotKeys_def)

lemma distinct_snapshotKeys [simp]: "distinct (snapshotKeys spans)"
  using snapshotKeys_fold [of spans "[]"] by (simp add: snapshotKeys_def)

lemma detectLayoutFrom_partition:
  "\<exists>ps. detectLayoutFrom cfg infos spans pageRect verticalStripsAll gapBands gridLines = Some ps
        \<and> set (concat ps) = set spans \<and> distinct (concat ps) \<and> [] \<notin> set ps"
proof -
  let ?keys = "snapshotKeys spans"
  let ?p1 = "mergeIntoParagraphsFromInfos cfg infos ?keys"
  let ?lh = "estimateLineHeightFromInfos cfg ?p1 infos ?keys pageRect"
  let ?strips = "keptStrips cfg verticalStripsAll"
  let ?bands = "layoutBandsOf cfg pageRect ?lh verticalStripsAll gapBands (gridLines ?lh)"
  have n1: "[] \<notin> set ?p1" by (rule mergeIntoParagraphsFromInfos_nonempty)
  have m1: "mset (concat ?p1) = mset ?keys" by (rule mergeIntoParagraphsFromInfos_mset)
  from mergeStages_keeps [OF n1, of cfg infos ?lh ?strips ?bands]
  obtain r where r: "mergeStages cfg infos ?lh ?strips ?bands ?p1 = Some r"
    and mr: "mset (concat r) = mset (concat ?p1)"
    by blast
  from mr m1 have "set (concat r) = set ?keys" by (metis mset_eq_setD)
  with finishStages_set [of cfg infos pageRect ?strips ?bands r]
  have "set (concat (finishStages cfg infos pageRect ?strips ?bands r)) = set spans
        \<and> distinct (concat (finishStages cfg infos pageRect ?strips ?bands r))
        \<and> [] \<notin> set (finishStages cfg infos pageRect ?strips ?bands r)"
    by simp
  with r show ?thesis by (simp add: detectLayoutFrom_def layoutStages_def Let_def)
qed
text \<open>
  C1.  \<open>detectLayout\<close> is given the fragments that passed the validity filter of the
  snapshot.  Whatever strips and bands the gap detector and whatever lines the grid
  detector return for them, and for every configuration, it returns a list of
  paragraphs (no stage throws); the fragments of these paragraphs, taken together, are
  exactly the given fragments, and no fragment occurs twice, neither in two paragraphs
  nor twice in one.
\<close>

theorem detectLayout_partition:
  "\<exists>ps. detectLayoutFrom cfg infos spans pageRect verticalStrips horizontalBands gridLines
           = Some ps
        \<and> set (concat ps) = set spans \<and> distinct (concat ps)"
  using detectLayoutFrom_partition
          [of cfg infos spans pageRect verticalStrips horizontalBands gridLines]
  by blast

theorem detectLayout_partition_witness:
  "\<exists>ps. detectLayoutFrom defaultLayoutSettings headerPage headerSpans headerRect [headerStrip] []
           (\<lambda>lineHeight. [])
           = Some ps
        \<and> set (concat ps) = {0, 1, 2, 3, 4} \<and> distinct (concat ps)"
proof -
  have "set headerSpans = {0, 1, 2, 3, 4}" by (auto simp: headerSpans_def)
  with detectLayout_partition [of defaultLayoutSettings headerPage headerSpans headerRect
         "[headerStrip]" "[]" "\<lambda>lineHeight. []"]
  show ?thesis by simp
qed

end
